theory Spec2Isabelle
  imports Main "HOL-Library.Log_Nat"
begin

section \<open>The checkout session engine of \<open>src/server.js\<close>\<close>

text \<open>
  \<open>src/server.js\<close> holds two versions of the server, one after the other; the second one
  (from its line 264 on, with the idempotency middleware, sanitisation and expiry) is the
  one modelled here.

  Conventions of the embedding.
  \<^item> The two module-level \<open>Map\<close>s, the line-item counter and the buyer objects make up an
    explicit \<open>state\<close>; every route takes the state and returns the new state with the HTTP
    response (status code and JSON body).
  \<^item> A buyer object is shared by reference between a stored checkout and every response
    object spread from it (\<open>{...checkout}\<close> is a shallow copy), and \<open>PUT\<close> assigns to its
    fields in place. Buyer objects therefore live in a store \<open>heap\<close> indexed by address.
    Arrays (\<open>line_items\<close>, \<open>totals\<close>, \<open>messages\<close>) are only ever replaced, never mutated,
    so they are held by value.
  \<^item> The clock is read several times while a request is served (\<open>Date.now()\<close>,
    \<open>new Date()\<close>). A request is served with its \<open>clock\<close>: \<open>now k\<close> is the reading, in
    milliseconds, of the call number \<open>k\<close> (from 0) that the handler makes.
    An identifier \<open>chk_${Date.now()}\<close> is represented by its timestamp, \<open>li_${n}_${t}\<close> by the
    pair \<open>(n, t)\<close>, \<open>ORD_${t}\<close> by \<open>t\<close>. An ISO date string is represented by its millisecond
    value (\<open>toISOString\<close> and \<open>new Date\<close> are inverse on it).
  \<^item> The request body is typed as the tool schema of \<open>src/mcp-server.js\<close> declares it:
    \<open>line_items\<close> an array of entries, item ids and buyer fields strings, \<open>quantity\<close> a
    number; each may be absent.
  \<^item> A JavaScript number is the rational it denotes, and every arithmetic operation rounds
    its exact result to 53 significant bits (\<open>fl\<close>), as IEEE 754 binary64 does in the normal
    range. Overflow and subnormal numbers are outside the model.
  \<^item> A string is a list of code units below 256; \<open>trim\<close>, \<open>\s\<close> and \<open>toLowerCase\<close> have
    their JavaScript meaning on these. Code units from 256 on are outside the model.
  \<^item> The constant members of a response (\<open>ucp\<close>, \<open>links\<close>, \<open>payment\<close>) are left out. The
    rate limiter and the discovery and product routes are not part of the engine.
\<close>

subsection \<open>JavaScript numbers\<close>

definition ilog2 :: "rat \<Rightarrow> int" where
  \<comment> \<open>the binary exponent of a positive number: \<open>2 powi ilog2 x \<le> x < 2 powi (ilog2 x + 1)\<close>\<close>
  "ilog2 x = (if 1 \<le> x then bitlen \<lfloor>x\<rfloor> - 1 else - bitlen (\<lceil>1 / x\<rceil> - 1))"

definition rne :: "rat \<Rightarrow> int" where
  \<comment> \<open>round to the nearest integer, ties to even\<close>
  "rne y = (let f = \<lfloor>y\<rfloor>; d = y - of_int f in
     if d < 1 / 2 then f else if 1 / 2 < d then f + 1 else if even f then f else f + 1)"

definition fl :: "rat \<Rightarrow> rat" where
  \<comment> \<open>the binary64 number nearest to \<open>x\<close>\<close>
  "fl x = (if x = 0 then 0 else
     let u = 2 powi (ilog2 \<bar>x\<bar> - 52) in of_int (rne (x / u)) * u)"

definition js_mul :: "rat \<Rightarrow> rat \<Rightarrow> rat" where
  "js_mul a b = fl (a * b)"

definition js_add :: "rat \<Rightarrow> rat \<Rightarrow> rat" where
  "js_add a b = fl (a + b)"

definition Math_round :: "rat \<Rightarrow> rat" where
  \<comment> \<open>\<open>Math.round\<close>: the nearest integer, a tie going up\<close>
  "Math_round x = of_int \<lfloor>x + 1 / 2\<rfloor>"

definition lit_0_08 :: rat where
  \<comment> \<open>the literal \<open>0.08\<close> as the parser reads it\<close>
  "lit_0_08 = fl (8 / 100)"

subsection \<open>JavaScript strings\<close>

definition is_space :: "char \<Rightarrow> bool" where
  \<comment> \<open>tab, line feed, vertical tab, form feed, carriage return, space, no-break space\<close>
  "is_space c = (of_char c \<in> {9, 10, 11, 12, 13, 32, 160 :: nat})"

definition trim :: "string \<Rightarrow> string" where
  "trim s = rev (dropWhile is_space (rev (dropWhile is_space s)))"

definition lower_char :: "char \<Rightarrow> char" where
  \<comment> \<open>the capital letters below 256 are \<open>A\<close> to \<open>Z\<close> and the code units 192 to 222 without
      the multiplication sign 215; each has its small letter 32 above it\<close>
  "lower_char c =
    (if 65 \<le> (of_char c :: nat) \<and> (of_char c :: nat) \<le> 90 \<or>
        192 \<le> (of_char c :: nat) \<and> (of_char c :: nat) \<le> 222 \<and> (of_char c :: nat) \<noteq> 215
     then char_of (of_char c + 32 :: nat) else c)"

definition toLowerCase :: "string \<Rightarrow> string" where
  "toLowerCase s = map lower_char s"

definition truthy :: "string option \<Rightarrow> bool" where
  \<comment> \<open>a string-valued member is truthy when it is present and not the empty string\<close>
  "truthy v = (case v of None \<Rightarrow> False | Some s \<Rightarrow> s \<noteq> [])"

subsection \<open>Data\<close>

record product =
  pid :: string
  pname :: string
  price :: rat
  stock :: nat

definition PRODUCTS :: "product list" where
  "PRODUCTS =
    [\<lparr>pid = ''1'', pname = ''Red Roses'', price = 299, stock = 100\<rparr>,
     \<lparr>pid = ''2'', pname = ''Pink Tulips'', price = 199, stock = 80\<rparr>,
     \<lparr>pid = ''3'', pname = ''White Lilies'', price = 399, stock = 60\<rparr>]"

datatype status = incomplete | ready_for_complete | completed | canceled

record total =
  ttype :: string
  amount :: rat
  display_text :: "string option"

record item =
  item_id :: string
  item_title :: string
  item_price :: rat

record line_item =
  li_id :: "nat \<times> int"
  li_item :: item
  li_quantity :: rat
  li_totals :: "total list"

record buyer =
  email :: "string option"
  full_name :: "string option"

record message =
  mtype :: string
  code :: string
  severity :: "string option"
  content :: string
  path :: "string option"

text \<open>
  A checkout object. The type parameter is what the member \<open>buyer\<close> holds: an address
  (\<open>nat checkout\<close>) in a stored checkout and in a response object, the buyer itself
  (\<open>buyer checkout\<close>) in the JSON text written to the wire.
\<close>

record 'b checkout =
  cid :: int
  line_items :: "line_item list"
  buyer :: 'b
  currency :: string
  totals :: "total list"
  messages :: "message list"
  expires_at :: int
  status :: status
  order_id :: "int option"

datatype body =
  Session "buyer checkout"
| Failure status "message list"

type_synonym response = "nat \<times> body"

record state =
  checkouts :: "int \<rightharpoonup> nat checkout"
  processedRequests :: "string \<rightharpoonup> nat checkout"
  lineItemCounter :: nat
  heap :: "nat \<Rightarrow> buyer"
  next_addr :: nat

definition init :: state where
  "init = \<lparr>checkouts = Map.empty, processedRequests = Map.empty, lineItemCounter = 0,
            heap = (\<lambda>_. \<lparr>email = None, full_name = None\<rparr>), next_addr = 0\<rparr>"

text \<open>Request bodies, after \<open>express.json()\<close> has parsed them.\<close>

record raw_item =
  raw_id :: "string option"
  quantity :: "rat option"

record create_body =
  c_line_items :: "raw_item list option"
  c_buyer :: "buyer option"
  c_currency :: "string option"

record update_body =
  u_line_items :: "raw_item list option"
  u_buyer :: "buyer option"

text \<open>
  The readings of the clock during one request, in the order of the calls.
\<close>

type_synonym clock = "nat \<Rightarrow> int"

subsection \<open>Helper functions\<close>

definition json :: "(nat \<Rightarrow> buyer) \<Rightarrow> nat checkout \<Rightarrow> buyer checkout" where
  \<comment> \<open>\<open>res.json\<close> serialises the object it is given, following the reference to the buyer\<close>
  "json h c = \<lparr>cid = cid c, line_items = line_items c, buyer = h (buyer c),
     currency = currency c, totals = totals c, messages = messages c,
     expires_at = expires_at c, status = status c, order_id = order_id c\<rparr>"

definition calculateTotals :: "line_item list \<Rightarrow> total list" where
  "calculateTotals lineItems =
    (let subtotal = foldl (\<lambda>sum it. js_add sum (js_mul (item_price (li_item it)) (li_quantity it)))
                       0 lineItems;
         tax = Math_round (js_mul subtotal lit_0_08);
         total = js_add subtotal tax
     in [\<lparr>ttype = ''subtotal'', amount = subtotal, display_text = Some ''Subtotal''\<rparr>,
         \<lparr>ttype = ''tax'', amount = tax, display_text = Some ''Tax (8%)''\<rparr>,
         \<lparr>ttype = ''total'', amount = total, display_text = Some ''Total''\<rparr>])"

definition createLineItem :: "nat \<Rightarrow> int \<Rightarrow> string \<Rightarrow> rat \<Rightarrow> line_item option \<times> nat" where
  \<comment> \<open>takes and returns \<open>lineItemCounter\<close>; \<open>None\<close> is \<open>null\<close>; \<open>t\<close> is what \<open>Date.now()\<close>
      returns, which is called only when the product is found\<close>
  "createLineItem counter t productId qty =
    (case find (\<lambda>p. pid p = productId) PRODUCTS of
       None \<Rightarrow> (None, counter)
     | Some p \<Rightarrow>
        (Some \<lparr>li_id = (counter + 1, t),
               li_item = \<lparr>item_id = pid p, item_title = pname p, item_price = price p\<rparr>,
               li_quantity = qty,
               li_totals = [\<lparr>ttype = ''subtotal'', amount = js_mul (price p) qty,
                             display_text = None\<rparr>]\<rparr>,
         counter + 1))"

fun createLineItems :: "nat \<Rightarrow> clock \<Rightarrow> nat \<Rightarrow> raw_item list \<Rightarrow> line_item list \<times> nat" where
  \<comment> \<open>\<open>line_items.map(li => createLineItem(li.item.id, li.quantity)).filter(li => li !== null)\<close>;
      \<open>k\<close> is the number of the next clock reading, and each item that is created takes one;
      an entry without id or quantity never gets here, \<open>validateLineItems\<close> has thrown\<close>
  "createLineItems counter now k [] = ([], counter)"
| "createLineItems counter now k (li # lis) =
    (case (raw_id li, quantity li) of
       (Some productId, Some qty) \<Rightarrow>
         (case createLineItem counter (now k) productId qty of
            (None, counter') \<Rightarrow> createLineItems counter' now k lis
          | (Some x, counter') \<Rightarrow>
              (case createLineItems counter' now (k + 1) lis of
                 (xs, counter'') \<Rightarrow> (x # xs, counter'')))
     | _ \<Rightarrow> createLineItems counter now k lis)"

definition determineStatus :: "buyer \<Rightarrow> line_item list \<Rightarrow> status" where
  \<comment> \<open>reads \<open>checkout.buyer\<close> and \<open>checkout.line_items\<close>\<close>
  "determineStatus b lineItems =
    (if \<not> truthy (email b) \<or> \<not> truthy (full_name b) then incomplete
     else if length lineItems = 0 then incomplete
     else ready_for_complete)"

definition validateCheckout :: "buyer \<Rightarrow> message list" where
  \<comment> \<open>reads \<open>checkout.buyer\<close>\<close>
  "validateCheckout b =
    (if \<not> truthy (email b) then
       [\<lparr>mtype = ''error'', code = ''missing_buyer_email'', severity = Some ''recoverable'',
         content = ''Buyer email is required'', path = Some ''$.buyer.email''\<rparr>] else []) @
    (if \<not> truthy (full_name b) then
       [\<lparr>mtype = ''error'', code = ''missing_buyer_name'', severity = Some ''recoverable'',
         content = ''Buyer name is required'', path = Some ''$.buyer.full_name''\<rparr>] else [])"

definition validateItem :: "raw_item \<Rightarrow> string option" where
  \<comment> \<open>the body of the \<open>forEach\<close>; \<open>Some m\<close> is \<open>throw new Error(m)\<close>\<close>
  "validateItem it =
    (case quantity it of
       None \<Rightarrow> Some ''Each line item must have item.id and quantity''
     | Some q \<Rightarrow>
        if \<not> truthy (raw_id it) \<or> q = 0
        then Some ''Each line item must have item.id and quantity''
        else if q < 1 \<or> q > 100 then Some ''Quantity must be between 1 and 100''
        else None)"

fun forEach_validate :: "raw_item list \<Rightarrow> string option" where
  "forEach_validate [] = None"
| "forEach_validate (it # its) =
    (case validateItem it of Some m \<Rightarrow> Some m | None \<Rightarrow> forEach_validate its)"

definition validateLineItems :: "raw_item list \<Rightarrow> string option" where
  "validateLineItems lineItems =
    (if length lineItems = 0 then Some ''line_items must be a non-empty array''
     else forEach_validate lineItems)"

definition email_char :: "char \<Rightarrow> bool" where
  \<comment> \<open>the class \<open>[^\s@]\<close>\<close>
  "email_char c = (\<not> is_space c \<and> c \<noteq> CHR ''@'')"

definition emailRegex_test :: "string \<Rightarrow> bool" where
  \<comment> \<open>\<open>/^[^\s@]+@[^\s@]+\.[^\s@]+$/\<close>: a non-empty run of the class, an \<open>@\<close>, and a run of the
      class with a dot that is neither its first nor its last character\<close>
  "emailRegex_test s =
    (takeWhile email_char s \<noteq> [] \<and>
     (case dropWhile email_char s of
        [] \<Rightarrow> False
      | c # d \<Rightarrow> c = CHR ''@'' \<and> list_all email_char d \<and> CHR ''.'' \<in> set (butlast (tl d))))"

definition sanitizeEmail :: "string \<Rightarrow> string option" where
  "sanitizeEmail e =
    (if e = [] then None
     else let trimmed = toLowerCase (trim e) in
          if emailRegex_test trimmed then Some trimmed else None)"

definition sanitizeName :: "string \<Rightarrow> string option" where
  "sanitizeName name = (if name = [] then None else Some (take 100 (trim name)))"

definition ucpError :: "string \<Rightarrow> string \<Rightarrow> body" where
  "ucpError c m = Failure canceled
     [\<lparr>mtype = ''error'', code = c, severity = Some ''requires_buyer_input'', content = m,
       path = None\<rparr>]"

definition cleaned :: "(string \<Rightarrow> string option) \<Rightarrow> string option \<Rightarrow> string option" where
  \<comment> \<open>the pattern \<open>if (v) { const clean = f(v); if (clean) target = clean; }\<close>: the value
      that is assigned, if any\<close>
  "cleaned f v =
    (case v of
       None \<Rightarrow> None
     | Some s \<Rightarrow>
        if s = [] then None
        else (case f s of None \<Rightarrow> None | Some r \<Rightarrow> if r = [] then None else Some r))"

subsection \<open>The routes\<close>

definition SIX_HOURS :: int where
  "SIX_HOURS = 6 * 60 * 60 * 1000"

definition remember :: "string option \<Rightarrow> nat checkout \<Rightarrow> state \<Rightarrow> state" where
  \<comment> \<open>\<open>if (req.idempotencyKey) processedRequests.set(req.idempotencyKey, responseData)\<close>\<close>
  "remember idempotencyKey responseData st =
    (case idempotencyKey of
       None \<Rightarrow> st
     | Some k \<Rightarrow>
        if k = [] then st
        else st\<lparr>processedRequests := (processedRequests st)(k \<mapsto> responseData)\<rparr>)"

definition handleIdempotency ::
  "string option \<Rightarrow> state \<Rightarrow> (state \<times> response) \<Rightarrow> state \<times> response" where
  \<comment> \<open>the third argument is what \<open>next()\<close> goes on to compute\<close>
  "handleIdempotency idempotencyKey st nxt =
    (case idempotencyKey of
       None \<Rightarrow> nxt
     | Some k \<Rightarrow>
        if k = [] then nxt
        else (case processedRequests st k of
                Some r \<Rightarrow> (st, (200, Session (json (heap st) r)))
              | None \<Rightarrow> nxt))"

definition create_checkout :: "clock \<Rightarrow> string option \<Rightarrow> create_body \<Rightarrow> state \<Rightarrow> state \<times> response" where
  \<comment> \<open>the handler of \<open>POST /api/checkout-sessions\<close>; the clock is read for the id, then once
      for each line item that is created, then for \<open>expires_at\<close>\<close>
  "create_checkout now idempotencyKey b st =
    (case (case c_line_items b of
             None \<Rightarrow> None
           | Some lis \<Rightarrow> if length lis > 0 then validateLineItems lis else None) of
       Some m \<Rightarrow> (st, (400, ucpError ''invalid_request'' m))
     | None \<Rightarrow>
        (case createLineItems (lineItemCounter st) now 1
                (case c_line_items b of None \<Rightarrow> [] | Some lis \<Rightarrow> lis) of
           (lineItemsResponse, counter) \<Rightarrow>
             let checkoutId = now 0;
                 sanitizedBuyer =
                   \<lparr>email = cleaned sanitizeEmail
                              (case c_buyer b of None \<Rightarrow> None | Some x \<Rightarrow> email x),
                    full_name = cleaned sanitizeName
                              (case c_buyer b of None \<Rightarrow> None | Some x \<Rightarrow> full_name x)\<rparr>;
                 a = next_addr st;
                 checkout =
                   \<lparr>cid = checkoutId, line_items = lineItemsResponse, buyer = a,
                    currency = (case c_currency b of
                                  None \<Rightarrow> ''USD''
                                | Some cur \<Rightarrow> if cur = [] then ''USD'' else cur),
                    totals = calculateTotals lineItemsResponse,
                    messages = validateCheckout sanitizedBuyer,
                    expires_at = now (1 + length lineItemsResponse) + SIX_HOURS,
                    status = determineStatus sanitizedBuyer lineItemsResponse,
                    order_id = None\<rparr>;
                 st' = remember idempotencyKey checkout
                         (st\<lparr>checkouts := (checkouts st)(checkoutId \<mapsto> checkout),
                             lineItemCounter := counter,
                             heap := (heap st)(a := sanitizedBuyer),
                             next_addr := a + 1\<rparr>)
             in (st', (201, Session (json (heap st') checkout)))))"

definition get_checkout :: "clock \<Rightarrow> int \<Rightarrow> state \<Rightarrow> state \<times> response" where
  \<comment> \<open>\<open>GET /api/checkout-sessions/:id\<close>\<close>
  "get_checkout now i st =
    (case checkouts st i of
       None \<Rightarrow> (st, (404, ucpError ''not_found'' ''Checkout not found''))
     | Some checkout \<Rightarrow>
        if expires_at checkout < now 0
        then (st\<lparr>checkouts := (checkouts st)(i := None)\<rparr>,
              (404, ucpError ''expired'' ''Checkout session has expired''))
        else (st, (200, Session (json (heap st) checkout))))"

definition update_checkout ::
  "clock \<Rightarrow> string option \<Rightarrow> int \<Rightarrow> update_body \<Rightarrow> state \<Rightarrow> state \<times> response" where
  \<comment> \<open>the handler of \<open>PUT /api/checkout-sessions/:id\<close>; the clock is read for the expiry
      check, then once for each line item that is created\<close>
  "update_checkout now idempotencyKey i b st =
    (case checkouts st i of
       None \<Rightarrow> (st, (404, ucpError ''not_found'' ''Checkout not found''))
     | Some checkout \<Rightarrow>
        if expires_at checkout < now 0
        then (st\<lparr>checkouts := (checkouts st)(i := None)\<rparr>,
              (404, ucpError ''expired'' ''Checkout session has expired''))
        else
          (case (case u_line_items b of None \<Rightarrow> None | Some lis \<Rightarrow> validateLineItems lis) of
             Some m \<Rightarrow> (st, (400, ucpError ''invalid_request'' m))
           | None \<Rightarrow>
              let (checkout1, counter) =
                    (case u_line_items b of
                       None \<Rightarrow> (checkout, lineItemCounter st)
                     | Some lis \<Rightarrow>
                        (case createLineItems (lineItemCounter st) now 1 lis of
                           (lineItemsResponse, counter) \<Rightarrow>
                             (checkout\<lparr>line_items := lineItemsResponse,
                                       totals := calculateTotals lineItemsResponse\<rparr>,
                              counter)));
                  old = heap st (buyer checkout);
                  new = (case u_buyer b of
                           None \<Rightarrow> old
                         | Some x \<Rightarrow>
                            \<lparr>email = (case cleaned sanitizeEmail (email x) of
                                        None \<Rightarrow> email old | Some e \<Rightarrow> Some e),
                             full_name = (case cleaned sanitizeName (full_name x) of
                                        None \<Rightarrow> full_name old | Some n \<Rightarrow> Some n)\<rparr>);
                  checkout2 = checkout1\<lparr>messages := validateCheckout new,
                                        status := determineStatus new (line_items checkout1)\<rparr>;
                  st' = remember idempotencyKey checkout2
                          (st\<lparr>checkouts := (checkouts st)(i \<mapsto> checkout2),
                              lineItemCounter := counter,
                              heap := (heap st)(buyer checkout := new)\<rparr>)
              in (st', (200, Session (json (heap st') checkout2)))))"

definition complete_checkout :: "clock \<Rightarrow> string option \<Rightarrow> int \<Rightarrow> state \<Rightarrow> state \<times> response" where
  \<comment> \<open>the handler of \<open>POST /api/checkout-sessions/:id/complete\<close>; the clock is read for the
      expiry check, then for the order id\<close>
  "complete_checkout now idempotencyKey i st =
    (case checkouts st i of
       None \<Rightarrow> (st, (404, ucpError ''not_found'' ''Checkout not found''))
     | Some checkout \<Rightarrow>
        if expires_at checkout < now 0
        then (st\<lparr>checkouts := (checkouts st)(i := None)\<rparr>,
              (404, ucpError ''expired'' ''Checkout session has expired''))
        else if status checkout \<noteq> ready_for_complete
        then (st, (400, Session ((json (heap st) checkout)
                \<lparr>messages := [\<lparr>mtype = ''error'', code = ''not_ready'',
                                severity = Some ''requires_buyer_input'',
                                content = ''Please add email and full name first'',
                                path = None\<rparr>]\<rparr>)))
        else
          let orderId = now 1;
              checkout' = checkout\<lparr>order_id := Some orderId, status := completed,
                            messages := [\<lparr>mtype = ''info'', code = ''order_confirmed'',
                                           severity = None,
                                           content = ''Order placed successfully!'',
                                           path = None\<rparr>]\<rparr>;
              st' = remember idempotencyKey checkout'
                      (st\<lparr>checkouts := (checkouts st)(i \<mapsto> checkout')\<rparr>)
          in (st', (200, Session (json (heap st') checkout'))))"

text \<open>A request: the route, the \<open>idempotency-key\<close> header, the path parameter, the body.\<close>

datatype request =
  POST_create "string option" create_body
| GET_session int
| PUT_update "string option" int update_body
| POST_complete "string option" int

definition serve :: "clock \<Rightarrow> request \<Rightarrow> state \<Rightarrow> state \<times> response" where
  \<comment> \<open>the routing table: the three mutating routes pass through \<open>handleIdempotency\<close>\<close>
  "serve now rq st =
    (case rq of
       POST_create k b \<Rightarrow> handleIdempotency k st (create_checkout now k b st)
     | GET_session i \<Rightarrow> get_checkout now i st
     | PUT_update k i b \<Rightarrow> handleIdempotency k st (update_checkout now k i b st)
     | POST_complete k i \<Rightarrow> handleIdempotency k st (complete_checkout now k i st))"

definition cleanup_sessions :: "int \<Rightarrow> state \<Rightarrow> state" where
  \<comment> \<open>the one-minute timer; it reads the clock once, \<open>t\<close>\<close>
  "cleanup_sessions t st =
    st\<lparr>checkouts := (\<lambda>i. case checkouts st i of
                             None \<Rightarrow> None
                           | Some checkout \<Rightarrow>
                              if expires_at checkout < t then None else Some checkout)\<rparr>"

definition cleanup_idempotency :: "state \<Rightarrow> state" where
  \<comment> \<open>the one-hour timer\<close>
  "cleanup_idempotency st = st\<lparr>processedRequests := Map.empty\<rparr>"

text \<open>
  What happens to the server over time: requests and the two timers, each with the readings
  of the clock while it runs.
\<close>

datatype event =
  Request request
| Sweep
| Forget

definition apply_event :: "state \<Rightarrow> clock \<times> event \<Rightarrow> state" where
  "apply_event st e =
    (case e of
       (now, Request rq) \<Rightarrow> fst (serve now rq st)
     | (now, Sweep) \<Rightarrow> cleanup_sessions (now 0) st
     | (now, Forget) \<Rightarrow> cleanup_idempotency st)"

definition run :: "state \<Rightarrow> (clock \<times> event) list \<Rightarrow> state" where
  "run st es = foldl apply_event st es"

subsection \<open>Predicates used in the statements\<close>

definition replayed :: "string option \<Rightarrow> state \<Rightarrow> bool" where
  \<comment> \<open>the condition under which \<open>handleIdempotency\<close> answers from the cache and the handler
      does not run\<close>
  "replayed idempotencyKey st =
    (case idempotencyKey of
       None \<Rightarrow> False
     | Some k \<Rightarrow> k \<noteq> [] \<and> processedRequests st k \<noteq> None)"

definition forward :: "clock \<Rightarrow> bool" where
  \<comment> \<open>the clock does not run backwards while the request is served\<close>
  "forward now = (\<forall>j k. j \<le> k \<longrightarrow> now j \<le> now k)"

subsection \<open>A sample session\<close>

definition instant :: "int \<Rightarrow> clock" where
  \<comment> \<open>the clock of a request that is served within the millisecond \<open>t\<close>\<close>
  "instant t = (\<lambda>_. t)"

definition ticking :: "int \<Rightarrow> clock" where
  \<comment> \<open>the clock of a request that starts at \<open>t\<close> and finds the clock one millisecond further at
      every reading\<close>
  "ticking t = (\<lambda>k. t + int k)"

definition ex_roses :: create_body where
  \<comment> \<open>twelve red roses, no buyer\<close>
  "ex_roses = \<lparr>c_line_items = Some [\<lparr>raw_id = Some ''1'', quantity = Some 12\<rparr>],
                c_buyer = None, c_currency = None\<rparr>"

definition ex_contact :: update_body where
  "ex_contact = \<lparr>u_line_items = None,
                  u_buyer = Some \<lparr>email = Some ''a@b.com'', full_name = Some ''A B''\<rparr>\<rparr>"

definition ex_created :: state where
  \<comment> \<open>the first request of a fresh server, at time 1000 with the key \<open>k1\<close>\<close>
  "ex_created = fst (serve (instant 1000) (POST_create (Some ''k1'') ex_roses) init)"

definition ex_cart :: "nat checkout" where
  \<comment> \<open>the checkout that request stores and remembers\<close>
  "ex_cart =
    \<lparr>cid = 1000,
     line_items = [\<lparr>li_id = (1, 1000),
                    li_item = \<lparr>item_id = ''1'', item_title = ''Red Roses'', item_price = 299\<rparr>,
                    li_quantity = 12,
                    li_totals = [\<lparr>ttype = ''subtotal'', amount = 3588, display_text = None\<rparr>]\<rparr>],
     buyer = 0, currency = ''USD'',
     totals = [\<lparr>ttype = ''subtotal'', amount = 3588, display_text = Some ''Subtotal''\<rparr>,
               \<lparr>ttype = ''tax'', amount = 287, display_text = Some ''Tax (8%)''\<rparr>,
               \<lparr>ttype = ''total'', amount = 3875, display_text = Some ''Total''\<rparr>],
     messages = validateCheckout \<lparr>email = None, full_name = None\<rparr>,
     expires_at = 21601000, status = incomplete, order_id = None\<rparr>"

definition ex_ticked :: "nat checkout" where
  \<comment> \<open>the checkout stored by the same request when the clock ticks: the id is read at
      1000, the line item is created at 1001, the expiry is counted from 1002\<close>
  "ex_ticked =
    ex_cart\<lparr>line_items :=
               [\<lparr>li_id = (1, 1001),
                 li_item = \<lparr>item_id = ''1'', item_title = ''Red Roses'', item_price = 299\<rparr>,
                 li_quantity = 12,
                 li_totals = [\<lparr>ttype = ''subtotal'', amount = 3588, display_text = None\<rparr>]\<rparr>],
            expires_at := 21601002\<rparr>"

definition ex_completed :: state where
  "ex_completed =
     run ex_created [(instant 2000, Request (PUT_update None 1000 ex_contact)),
                     (instant 3000, Request (POST_complete None 1000))]"

definition ex_order :: "nat checkout" where
  "ex_order = ex_cart\<lparr>messages := [\<lparr>mtype = ''info'', code = ''order_confirmed'', severity = None,
                                    content = ''Order placed successfully!'', path = None\<rparr>],
                       status := completed, order_id := Some 3000\<rparr>"

definition ex_too_many :: update_body where
  "ex_too_many = \<lparr>u_line_items = Some [\<lparr>raw_id = Some ''1'', quantity = Some 101\<rparr>],
                   u_buyer = Some \<lparr>email = Some ''c@d.org'', full_name = None\<rparr>\<rparr>"

definition restores :: "int \<Rightarrow> clock \<times> event \<Rightarrow> bool" where
  \<comment> \<open>the events that may store a checkout with a recomputed status under the id \<open>i\<close>: an
      update of \<open>i\<close>, and a create whose clock reading is the one \<open>i\<close> was made from\<close>
  "restores i e =
    (case e of
       (now, Request (PUT_update k j b)) \<Rightarrow> j = i
     | (now, Request (POST_create k b)) \<Rightarrow> now 0 = i
     | _ \<Rightarrow> False)"

definition ex_first_body :: "buyer checkout" where
  \<comment> \<open>the body of the response to the first request\<close>
  "ex_first_body = json (\<lambda>_. \<lparr>email = None, full_name = None\<rparr>) ex_cart"

definition ex_nothing :: update_body where
  \<comment> \<open>the body \<open>{}\<close>\<close>
  "ex_nothing = \<lparr>u_line_items = None, u_buyer = None\<rparr>"

definition known :: "string \<Rightarrow> bool" where
  \<comment> \<open>the product id matches a catalog product\<close>
  "known p = (p \<in> set (map pid PRODUCTS))"

definition kept :: "raw_item list \<Rightarrow> raw_item list" where
  \<comment> \<open>the specification's cart: the submitted entries without those of unknown products\<close>
  "kept lis = filter (\<lambda>it. case raw_id it of None \<Rightarrow> False | Some p \<Rightarrow> known p) lis"

definition entry_of :: "line_item \<Rightarrow> string option \<times> rat option" where
  "entry_of li = (Some (item_id (li_item li)), Some (li_quantity li))"

definition ex_mixed :: "raw_item list" where
  \<comment> \<open>twelve red roses and one item of a product the catalog does not have\<close>
  "ex_mixed = [\<lparr>raw_id = Some ''1'', quantity = Some 12\<rparr>,
               \<lparr>raw_id = Some ''999'', quantity = Some 1\<rparr>]"

definition in_range :: "line_item list \<Rightarrow> bool" where
  "in_range lineItems = list_all (\<lambda>li. 1 \<le> li_quantity li \<and> li_quantity li \<le> 100) lineItems"

definition quantities_in_range :: "state \<Rightarrow> bool" where
  \<comment> \<open>every line item of every stored session has a quantity between 1 and 100\<close>
  "quantities_in_range st =
    (\<forall>i c. checkouts st i = Some c \<longrightarrow> in_range (line_items c))"

definition expiry_set :: "state \<Rightarrow> bool" where
  \<comment> \<open>a session is stored under the first clock reading of its creation and expires six
      hours after a later one\<close>
  "expiry_set st = (\<forall>i c. checkouts st i = Some c \<longrightarrow> i + SIX_HOURS \<le> expires_at c)"

definition ex_half :: create_body where
  \<comment> \<open>one and a half red roses\<close>
  "ex_half = \<lparr>c_line_items = Some [\<lparr>raw_id = Some ''1'', quantity = Some (3 / 2)\<rparr>],
               c_buyer = None, c_currency = None\<rparr>"

definition ex_half_item :: line_item where
  "ex_half_item =
    \<lparr>li_id = (1, 1000),
     li_item = \<lparr>item_id = ''1'', item_title = ''Red Roses'', item_price = 299\<rparr>,
     li_quantity = 3 / 2,
     li_totals = [\<lparr>ttype = ''subtotal'', amount = 897 / 2, display_text = None\<rparr>]\<rparr>"

definition ex_half_cart :: "nat checkout" where
  "ex_half_cart = ex_cart\<lparr>line_items := [ex_half_item], totals := calculateTotals [ex_half_item]\<rparr>"

definition sanitized :: "buyer \<Rightarrow> bool" where
  \<comment> \<open>an email, if there is one, has the shape the regular expression asks for; a name, if
      there is one, is not empty\<close>
  "sanitized b =
    ((case email b of None \<Rightarrow> True | Some e \<Rightarrow> emailRegex_test e) \<and>
     (case full_name b of None \<Rightarrow> True | Some n \<Rightarrow> n \<noteq> []))"

definition buyers_sanitized :: "state \<Rightarrow> bool" where
  "buyers_sanitized st = (\<forall>a. sanitized (heap st a))"

definition ex_ready_body :: "buyer checkout" where
  \<comment> \<open>the body of the response to the update of the sample session with \<open>ex_contact\<close>\<close>
  "ex_ready_body = json (\<lambda>_. \<lparr>email = Some ''a@b.com'', full_name = Some ''A B''\<rparr>)
                     (ex_cart\<lparr>messages := [], status := ready_for_complete\<rparr>)"

definition round_half_up :: "rat \<Rightarrow> rat" where
  \<comment> \<open>the specification's rounding: to the nearest integer, a half going up\<close>
  "round_half_up x = of_int \<lfloor>x + 1 / 2\<rfloor>"

definition ex_dozen :: line_item where
  \<comment> \<open>twelve red roses at 299\<close>
  "ex_dozen =
    \<lparr>li_id = (1, 1000),
     li_item = \<lparr>item_id = ''1'', item_title = ''Red Roses'', item_price = 299\<rparr>,
     li_quantity = 12,
     li_totals = [\<lparr>ttype = ''subtotal'', amount = 3588, display_text = None\<rparr>]\<rparr>"

section \<open>Properties\<close>

lemma instant_apply [simp]: "instant t k = t"
  by (simp add: instant_def)

lemma forward_instant [simp]: "forward (instant t)"
  by (simp add: forward_def)

lemma forward_ticking [simp]: "forward (ticking t)"
  by (simp add: forward_def ticking_def)

subsection \<open>The idempotency cache\<close>

lemma handleIdempotency_fresh:
  "\<not> replayed k st \<Longrightarrow> handleIdempotency k st nxt = nxt"
  by (auto simp: replayed_def handleIdempotency_def split: option.splits)

lemma handleIdempotency_hit:
  "processedRequests st k = Some r \<Longrightarrow> k \<noteq> [] \<Longrightarrow>
     handleIdempotency (Some k) st nxt = (st, (200, Session (json (heap st) r)))"
  by (simp add: handleIdempotency_def)

lemma processed_remember:
  "processedRequests (remember k' r' st) k =
     (if k' = Some k \<and> k \<noteq> [] then Some r' else processedRequests st k)"
  by (auto simp: remember_def split: option.splits)

lemma processed_create:
  "processedRequests st k = Some r \<Longrightarrow> k' \<noteq> Some k \<Longrightarrow>
     processedRequests (fst (create_checkout now k' b st)) k = Some r"
  by (auto simp: create_checkout_def Let_def processed_remember split: option.splits prod.splits)

lemma processed_update:
  "processedRequests st k = Some r \<Longrightarrow> k' \<noteq> Some k \<Longrightarrow>
     processedRequests (fst (update_checkout now k' i b st)) k = Some r"
  by (auto simp: update_checkout_def Let_def processed_remember split: option.splits prod.splits)

lemma processed_complete:
  "processedRequests st k = Some r \<Longrightarrow> k' \<noteq> Some k \<Longrightarrow>
     processedRequests (fst (complete_checkout now k' i st)) k = Some r"
  by (auto simp: complete_checkout_def Let_def processed_remember split: option.splits prod.splits)

lemma processed_get:
  "processedRequests (fst (get_checkout now i st)) k = processedRequests st k"
  by (auto simp: get_checkout_def split: option.splits)

text \<open>No request changes an entry of the cache once it is there.\<close>

lemma processed_serve:
  assumes "processedRequests st k = Some r" "k \<noteq> []"
  shows "processedRequests (fst (serve now rq st)) k = Some r"
proof (cases rq)
  case (POST_create k' b)
  show ?thesis
  proof (cases "k' = Some k")
    case True
    then show ?thesis using assms POST_create by (simp add: serve_def handleIdempotency_hit)
  next
    case False
    then show ?thesis using assms POST_create
      by (cases "replayed k' st")
         (auto simp: serve_def handleIdempotency_fresh processed_create replayed_def
            handleIdempotency_def split: option.splits)
  qed
next
  case (GET_session i)
  then show ?thesis using assms by (simp add: serve_def processed_get)
next
  case (PUT_update k' i b)
  show ?thesis
  proof (cases "k' = Some k")
    case True
    then show ?thesis using assms PUT_update by (simp add: serve_def handleIdempotency_hit)
  next
    case False
    then show ?thesis using assms PUT_update
      by (cases "replayed k' st")
         (auto simp: serve_def handleIdempotency_fresh processed_update replayed_def
            handleIdempotency_def split: option.splits)
  qed
next
  case (POST_complete k' i)
  show ?thesis
  proof (cases "k' = Some k")
    case True
    then show ?thesis using assms POST_complete by (simp add: serve_def handleIdempotency_hit)
  next
    case False
    then show ?thesis using assms POST_complete
      by (cases "replayed k' st")
         (auto simp: serve_def handleIdempotency_fresh processed_complete replayed_def
            handleIdempotency_def split: option.splits)
  qed
qed

lemma processed_run:
  assumes "processedRequests st k = Some r" "k \<noteq> []" "\<forall>e \<in> set es. snd e \<noteq> Forget"
  shows "processedRequests (run st es) k = Some r"
  using assms
proof (induction es arbitrary: st)
  case Nil
  then show ?case by (simp add: run_def)
next
  case (Cons e es)
  obtain now ev where e: "e = (now, ev)" by (cases e)
  have "processedRequests (apply_event st e) k = Some r"
    using Cons.prems e
    by (cases ev) (auto simp: apply_event_def processed_serve cleanup_sessions_def)
  then show ?case using Cons by (simp add: run_def)
qed

text \<open>
  Claim C10. \<open>processedRequests\<close> is one map for the three mutating routes, and its only key
  is the \<open>idempotency-key\<close> header. Once a response object \<open>r\<close> is recorded under a key,
  then after any further requests and session sweeps (the hourly clearing of the cache
  apart), a create, an update of any session and a complete of any session that carry the
  key are all answered with status 200 and the serialisation of \<open>r\<close>, and the state is left
  as it is: the handler does not run.
\<close>

theorem idempotency_key_shared_by_routes:
  assumes "processedRequests st k = Some r" and "k \<noteq> []"
    and "\<forall>e \<in> set es. snd e \<noteq> Forget"
    and "rq = POST_create (Some k) b \<or> rq = PUT_update (Some k) i u \<or> rq = POST_complete (Some k) j"
  shows "serve now rq (run st es) = (run st es, (200, Session (json (heap (run st es)) r)))"
proof -
  have "processedRequests (run st es) k = Some r"
    using assms(1-3) by (rule processed_run)
  then show ?thesis
    using assms(2,4) by (auto simp: serve_def handleIdempotency_hit)
qed

theorem idempotency_key_shared_by_routes_witness:
  "serve (instant 5000) (POST_complete (Some ''k1'') 77)
     (run ex_created [(instant 2000, Request (PUT_update None 1000 ex_contact))]) =
   (run ex_created [(instant 2000, Request (PUT_update None 1000 ex_contact))],
    (200, Session (json (heap (run ex_created [(instant 2000, Request (PUT_update None 1000 ex_contact))]))
                    ex_cart)))"
proof -
  have recorded: "processedRequests ex_created ''k1'' = Some ex_cart"
    by code_simp
  have no_clearing: "\<forall>e \<in> set [(instant 2000, Request (PUT_update None 1000 ex_contact))]. snd e \<noteq> Forget"
    by simp
  show ?thesis
    using idempotency_key_shared_by_routes [OF recorded _ no_clearing,
        where rq = "POST_complete (Some ''k1'') 77" and j = 77 and now = "instant 5000"
          and b = ex_roses and i = 0 and u = ex_contact]
    by simp
qed

subsection \<open>Requests that are turned down\<close>

text \<open>What \<open>validateLineItems\<close> throws on, in the words of the specification.\<close>

lemma forEach_validate_Some_iff:
  "forEach_validate lis \<noteq> None \<longleftrightarrow>
     (\<exists>it \<in> set lis. \<not> truthy (raw_id it) \<or> quantity it = None \<or>
        (\<exists>q. quantity it = Some q \<and> (q < 1 \<or> 100 < q)))"
  by (induction lis) (auto simp: validateItem_def split: option.splits)

lemma validateLineItems_Some_iff:
  "validateLineItems lis \<noteq> None \<longleftrightarrow>
     (lis = [] \<or> (\<exists>it \<in> set lis. \<not> truthy (raw_id it) \<or> quantity it = None \<or>
        (\<exists>q. quantity it = Some q \<and> (q < 1 \<or> 100 < q))))"
  using forEach_validate_Some_iff [of lis] by (auto simp: validateLineItems_def)

text \<open>
  Claim C5. An update is carried out on a session that is stored and has not expired, by a
  request that is not answered from the idempotency cache. If the \<open>line_items\<close> it
  supplies are an empty array, or hold an entry without item id or without quantity, or an
  entry whose quantity is below 1 (0, say) or above 100 (101, say), the response is 400 with
  the code \<open>invalid_request\<close>, and the whole state of the server, the stored session and its
  buyer among it, is what it was before.
\<close>

theorem rejected_update_changes_nothing:
  assumes "checkouts st i = Some c" and "\<not> expires_at c < now 0" and "\<not> replayed k st"
    and "u_line_items u = Some lis"
    and "lis = [] \<or> (\<exists>it \<in> set lis. \<not> truthy (raw_id it) \<or> quantity it = None \<or>
           (\<exists>q. quantity it = Some q \<and> (q < 1 \<or> 100 < q)))"
  shows "\<exists>m. serve now (PUT_update k i u) st =
    (st, (400, Failure canceled
       [\<lparr>mtype = ''error'', code = ''invalid_request'', severity = Some ''requires_buyer_input'',
         content = m, path = None\<rparr>]))"
proof -
  from assms(5) obtain m where "validateLineItems lis = Some m"
    using validateLineItems_Some_iff [of lis] by auto
  then have "update_checkout now k i u st = (st, (400, ucpError ''invalid_request'' m))"
    using assms(1,2,4) by (simp add: update_checkout_def)
  then show ?thesis
    using assms(3) by (auto simp: serve_def handleIdempotency_fresh ucpError_def)
qed

theorem rejected_update_changes_nothing_witness:
  "\<exists>m. serve (instant 4000) (PUT_update None 1000 ex_too_many) ex_completed =
    (ex_completed, (400, Failure canceled
       [\<lparr>mtype = ''error'', code = ''invalid_request'', severity = Some ''requires_buyer_input'',
         content = m, path = None\<rparr>]))"
proof -
  have stored: "checkouts ex_completed 1000 = Some ex_order"
    by code_simp
  have live: "\<not> expires_at ex_order < instant 4000 0"
    by code_simp
  have executed: "\<not> replayed None ex_completed"
    by (simp add: replayed_def)
  have supplied: "u_line_items ex_too_many = Some [\<lparr>raw_id = Some ''1'', quantity = Some 101\<rparr>]"
    by (simp add: ex_too_many_def)
  have bad: "[\<lparr>raw_id = Some ''1'', quantity = Some 101\<rparr>] = [] \<or>
      (\<exists>it \<in> set [\<lparr>raw_id = Some ''1'', quantity = Some (101 :: rat)\<rparr>].
          \<not> truthy (raw_id it) \<or> quantity it = None \<or>
          (\<exists>q. quantity it = Some q \<and> (q < 1 \<or> 100 < q)))"
    by simp
  show ?thesis
    using rejected_update_changes_nothing [where now = "instant 4000", OF stored live executed supplied bad] .
qed

text \<open>
  Claim C6. A complete that is carried out on a stored, unexpired session whose status is
  not \<open>ready_for_complete\<close> (\<open>completed\<close> included) answers 400 with the session as it is
  stored, its messages replaced in the response by the one \<open>not_ready\<close> message, and leaves
  the state of the server unchanged: no order is assigned, nothing is removed, and the status
  stays what it was.
\<close>

theorem complete_not_ready_changes_nothing:
  assumes "checkouts st i = Some c" and "\<not> expires_at c < now 0"
    and "status c \<noteq> ready_for_complete" and "\<not> replayed k st"
  shows "serve now (POST_complete k i) st =
    (st, (400, Session ((json (heap st) c)
       \<lparr>messages := [\<lparr>mtype = ''error'', code = ''not_ready'',
                       severity = Some ''requires_buyer_input'',
                       content = ''Please add email and full name first'', path = None\<rparr>]\<rparr>)))"
proof -
  have "complete_checkout now k i st =
    (st, (400, Session ((json (heap st) c)
       \<lparr>messages := [\<lparr>mtype = ''error'', code = ''not_ready'',
                       severity = Some ''requires_buyer_input'',
                       content = ''Please add email and full name first'', path = None\<rparr>]\<rparr>)))"
    using assms(1-3) by (simp add: complete_checkout_def)
  then show ?thesis
    using assms(4) by (simp add: serve_def handleIdempotency_fresh)
qed

theorem complete_not_ready_changes_nothing_witness:
  "serve (instant 4000) (POST_complete None 1000) ex_completed =
    (ex_completed, (400, Session ((json (heap ex_completed) ex_order)
       \<lparr>messages := [\<lparr>mtype = ''error'', code = ''not_ready'',
                       severity = Some ''requires_buyer_input'',
                       content = ''Please add email and full name first'', path = None\<rparr>]\<rparr>)))"
proof -
  have stored: "checkouts ex_completed 1000 = Some ex_order"
    by code_simp
  have live: "\<not> expires_at ex_order < instant 4000 0"
    by code_simp
  have finished: "status ex_order \<noteq> ready_for_complete"
    by code_simp
  have executed: "\<not> replayed None ex_completed"
    by (simp add: replayed_def)
  show ?thesis
    using complete_not_ready_changes_nothing [where now = "instant 4000", OF stored live finished executed] .
qed

subsection \<open>What each handler does to the session store\<close>

lemma checkouts_remember [simp]: "checkouts (remember k r st) = checkouts st"
  by (simp add: remember_def split: option.splits)

lemma heap_remember [simp]: "heap (remember k r st) = heap st"
  by (simp add: remember_def split: option.splits)

lemma lineItemCounter_remember [simp]: "lineItemCounter (remember k r st) = lineItemCounter st"
  by (simp add: remember_def split: option.splits)

lemma checkouts_create_other:
  "i \<noteq> now 0 \<Longrightarrow> checkouts (fst (create_checkout now k b st)) i = checkouts st i"
  by (simp add: create_checkout_def Let_def split: option.splits prod.splits)

lemma checkouts_update_other:
  "i \<noteq> j \<Longrightarrow> checkouts (fst (update_checkout now k j b st)) i = checkouts st i"
  by (simp add: update_checkout_def Let_def split: option.splits prod.splits)

lemma checkouts_complete_other:
  "i \<noteq> j \<Longrightarrow> checkouts (fst (complete_checkout now k j st)) i = checkouts st i"
  by (simp add: complete_checkout_def Let_def split: option.splits prod.splits)

lemma checkouts_get_other:
  "i \<noteq> j \<Longrightarrow> checkouts (fst (get_checkout now j st)) i = checkouts st i"
  by (simp add: get_checkout_def Let_def split: option.splits prod.splits)

lemma checkouts_get_same:
  "checkouts (fst (get_checkout now i st)) i = None \<or>
   checkouts (fst (get_checkout now i st)) i = checkouts st i"
  by (simp add: get_checkout_def Let_def split: option.splits prod.splits)

lemma checkouts_complete_same:
  "checkouts st i = Some c \<Longrightarrow> status c \<noteq> ready_for_complete \<Longrightarrow>
   checkouts (fst (complete_checkout now k i st)) i = None \<or>
   checkouts (fst (complete_checkout now k i st)) i = Some c"
  by (simp add: complete_checkout_def Let_def split: option.splits prod.splits)

lemma handleIdempotency_cases:
  "handleIdempotency k st nxt = nxt \<or> fst (handleIdempotency k st nxt) = st"
  by (simp add: handleIdempotency_def split: option.splits)

lemma serve_store_cases:
  "fst (serve now rq st) = st \<or>
   (\<exists>k b. rq = POST_create k b \<and> fst (serve now rq st) = fst (create_checkout now k b st)) \<or>
   (\<exists>j. rq = GET_session j \<and> fst (serve now rq st) = fst (get_checkout now j st)) \<or>
   (\<exists>k j b. rq = PUT_update k j b \<and> fst (serve now rq st) = fst (update_checkout now k j b st)) \<or>
   (\<exists>k j. rq = POST_complete k j \<and> fst (serve now rq st) = fst (complete_checkout now k j st))"
  by (cases rq) (auto simp: serve_def handleIdempotency_def split: option.splits)

subsection \<open>The status after completion\<close>

lemma completed_kept_by_serve:
  assumes "\<forall>c. checkouts st i = Some c \<longrightarrow> status c = completed"
    and "\<not> restores i (now, Request rq)"
  shows "\<forall>c. checkouts (fst (serve now rq st)) i = Some c \<longrightarrow> status c = completed"
proof -
  have create: "checkouts (fst (create_checkout now k b st)) i = checkouts st i"
    if "rq = POST_create k b" for k b
    using that assms(2) by (simp add: checkouts_create_other restores_def)
  have update: "checkouts (fst (update_checkout now k j b st)) i = checkouts st i"
    if "rq = PUT_update k j b" for k j b
    using that assms(2) by (simp add: checkouts_update_other restores_def)
  have get: "checkouts (fst (get_checkout now j st)) i = None \<or>
             checkouts (fst (get_checkout now j st)) i = checkouts st i" for j
    using checkouts_get_same [of now i st] checkouts_get_other [of i j now st]
    by (cases "i = j") simp_all
  have complete: "checkouts (fst (complete_checkout now k j st)) i = None \<or>
             checkouts (fst (complete_checkout now k j st)) i = checkouts st i" for k j
  proof (cases "i = j")
    case False
    then show ?thesis by (simp add: checkouts_complete_other)
  next
    case True
    show ?thesis
    proof (cases "checkouts st i")
      case None
      then show ?thesis using True by (simp add: complete_checkout_def)
    next
      case (Some c)
      then have "status c \<noteq> ready_for_complete" using assms(1) by simp
      then show ?thesis
        using Some True checkouts_complete_same [of st i c now k] by simp
    qed
  qed
  from serve_store_cases [of now rq st] show ?thesis
  proof (elim disjE exE conjE)
    assume "fst (serve now rq st) = st"
    then show ?thesis using assms(1) by simp
  next
    fix k b assume "rq = POST_create k b"
      and "fst (serve now rq st) = fst (create_checkout now k b st)"
    then show ?thesis using assms(1) create by simp
  next
    fix j assume "fst (serve now rq st) = fst (get_checkout now j st)"
    then show ?thesis using assms(1) get [of j] by auto
  next
    fix k j b assume "rq = PUT_update k j b"
      and "fst (serve now rq st) = fst (update_checkout now k j b st)"
    then show ?thesis using assms(1) update by simp
  next
    fix k j assume "fst (serve now rq st) = fst (complete_checkout now k j st)"
    then show ?thesis using assms(1) complete [of k j] by auto
  qed
qed

lemma completed_kept_by_event:
  assumes "\<forall>c. checkouts st i = Some c \<longrightarrow> status c = completed"
    and "\<not> restores i e"
  shows "\<forall>c. checkouts (apply_event st e) i = Some c \<longrightarrow> status c = completed"
proof -
  obtain now ev where e: "e = (now, ev)" by (cases e)
  show ?thesis
  proof (cases ev)
    case (Request rq)
    then show ?thesis
      using completed_kept_by_serve [OF assms(1), of now rq] assms(2) e
      by (simp add: apply_event_def restores_def)
  next
    case Sweep
    then show ?thesis using assms(1) e
      by (auto simp: apply_event_def cleanup_sessions_def split: option.splits if_splits)
  next
    case Forget
    then show ?thesis using assms(1) e
      by (auto simp: apply_event_def cleanup_idempotency_def)
  qed
qed

text \<open>
  Claim C1, as amended. Once a stored session has the status \<open>completed\<close>, no get, no
  complete, no update of another session, no create that is given another id and neither
  timer gives it another status: after any sequence of such events the session is either
  gone (expired) or still \<open>completed\<close>. An update of the session itself is left out: it
  recomputes the status. So is a create at the very clock reading the session was created
  at, which is given the same id and replaces the session.
\<close>

theorem completed_stays_completed:
  assumes "checkouts st i = Some c" and "status c = completed"
    and "\<forall>e \<in> set es. \<not> restores i e"
  shows "\<forall>c'. checkouts (run st es) i = Some c' \<longrightarrow> status c' = completed"
proof -
  have "\<forall>c'. checkouts (foldl apply_event s es) i = Some c' \<longrightarrow> status c' = completed"
    if "\<forall>c. checkouts s i = Some c \<longrightarrow> status c = completed"
      and "\<forall>e \<in> set es. \<not> restores i e" for s
    using that
  proof (induction es arbitrary: s)
    case Nil
    then show ?case by simp
  next
    case (Cons e es)
    have "\<not> restores i e" using Cons.prems(2) by simp
    then have step: "\<forall>c. checkouts (apply_event s e) i = Some c \<longrightarrow> status c = completed"
      using Cons.prems(1) by (rule completed_kept_by_event [rotated])
    have rest: "\<forall>e \<in> set es. \<not> restores i e" using Cons.prems(2) by simp
    show ?case
      using Cons.IH [OF step rest] by simp
  qed
  moreover have "\<forall>c'. checkouts st i = Some c' \<longrightarrow> status c' = completed"
    using assms(1,2) by simp
  ultimately show ?thesis
    using assms(3) unfolding run_def by blast
qed

theorem completed_stays_completed_witness:
  "map_option status
     (checkouts (run ex_completed
        [(instant 4000, Request (GET_session 1000)), (instant 5000, Request (POST_complete (Some ''k2'') 1000)),
         (instant 6000, Sweep), (instant 7000, Request (POST_create None ex_roses))]) 1000)
   = Some completed"
proof -
  have stored: "checkouts ex_completed 1000 = Some ex_order"
    by code_simp
  have finished: "status ex_order = completed"
    by code_simp
  have others: "\<forall>e \<in> set [(instant 4000, Request (GET_session 1000)),
        (instant 5000, Request (POST_complete (Some ''k2'') 1000)),
        (instant 6000, Sweep), (instant 7000, Request (POST_create None ex_roses))]. \<not> restores 1000 e"
    by (simp add: restores_def)
  have still: "checkouts (run ex_completed
        [(instant 4000, Request (GET_session 1000)), (instant 5000, Request (POST_complete (Some ''k2'') 1000)),
         (instant 6000, Sweep), (instant 7000, Request (POST_create None ex_roses))]) 1000 = Some ex_order"
    by code_simp
  have "status ex_order = completed"
    using completed_stays_completed [OF stored finished others] still by blast
  then show ?thesis
    using still by simp
qed

text \<open>
  Claim C1 as it is written fails: the sample session is completed at time 3000, and an
  update of it with the empty body at time 4000 stores it as \<open>ready_for_complete\<close>.
\<close>

theorem update_reopens_completed_session:
  "map_option status (checkouts ex_completed 1000) = Some completed \<and>
   map_option status
     (checkouts (fst (serve (instant 4000) (PUT_update None 1000 ex_nothing) ex_completed)) 1000)
     = Some ready_for_complete"
  by code_simp

subsection \<open>Replay and the shared buyer object\<close>

text \<open>
  Claim C2 at a failing input. The first request creates a session without buyer under the
  key \<open>k1\<close>; its response body has an empty buyer. An update then sets the buyer of that
  session. The create is sent again with the key \<open>k1\<close>: it is answered from the cache, and
  the body is the first one except for its buyer, which now is the updated one, because the
  remembered response object and the stored checkout share one buyer object.
\<close>

theorem replayed_body_differs_after_update:
  "snd (serve (instant 1000) (POST_create (Some ''k1'') ex_roses) init) = (201, Session ex_first_body) \<and>
   buyer ex_first_body = \<lparr>email = None, full_name = None\<rparr> \<and>
   snd (serve (instant 3000) (POST_create (Some ''k1'') ex_roses)
          (run ex_created [(instant 2000, Request (PUT_update None 1000 ex_contact))]))
     = (200, Session (ex_first_body\<lparr>buyer := \<lparr>email = Some ''a@b.com'', full_name = Some ''A B''\<rparr>\<rparr>))"
  by code_simp

subsection \<open>Line items\<close>

lemma find_product_None: "find (\<lambda>p. pid p = x) PRODUCTS = None \<longleftrightarrow> \<not> known x"
  by (auto simp: known_def find_None_iff)

lemma find_Some_set: "find P xs = Some x \<Longrightarrow> x \<in> set xs \<and> P x"
  by (induction xs) (auto split: if_splits)

lemma find_product_Some: "find (\<lambda>p. pid p = x) PRODUCTS = Some p \<Longrightarrow> pid p = x \<and> known x"
  using find_Some_set [of "\<lambda>p. pid p = x" PRODUCTS p] by (auto simp: known_def)

lemma createLineItem_unknown: "\<not> known x \<Longrightarrow> createLineItem n t x q = (None, n)"
  using find_product_None [of x] by (simp add: createLineItem_def)

lemma createLineItem_known:
  assumes "known x"
  shows "\<exists>li. createLineItem n t x q = (Some li, n + 1) \<and>
      item_id (li_item li) = x \<and> li_quantity li = q"
proof -
  have "find (\<lambda>p. pid p = x) PRODUCTS \<noteq> None"
    using assms find_product_None [of x] by simp
  then obtain p where p: "find (\<lambda>p. pid p = x) PRODUCTS = Some p"
    by blast
  then have "pid p = x"
    using find_product_Some [of x p] by blast
  then show ?thesis
    using p by (simp add: createLineItem_def)
qed

lemma forEach_validate_None:
  "forEach_validate lis = None \<longleftrightarrow>
     (\<forall>it \<in> set lis. \<exists>p q. raw_id it = Some p \<and> p \<noteq> [] \<and> quantity it = Some q \<and> 1 \<le> q \<and> q \<le> 100)"
  by (induction lis) (auto simp: validateItem_def truthy_def split: option.splits)

lemma createLineItems_cart:
  "forEach_validate lis = None \<Longrightarrow>
     map entry_of (fst (createLineItems n now k lis)) = map (\<lambda>it. (raw_id it, quantity it)) (kept lis)"
proof (induction lis arbitrary: n k)
  case Nil
  then show ?case by (simp add: kept_def)
next
  case (Cons it lis)
  from Cons.prems have all: "\<forall>x \<in> set (it # lis). \<exists>p q. raw_id x = Some p \<and> p \<noteq> [] \<and>
      quantity x = Some q \<and> 1 \<le> q \<and> q \<le> 100"
    by (simp only: forEach_validate_None)
  then obtain p q where it: "raw_id it = Some p" "quantity it = Some q"
    by auto
  have rest: "forEach_validate lis = None"
    using all by (simp only: forEach_validate_None) simp
  show ?case
  proof (cases "known p")
    case False
    then show ?thesis
      using it Cons.IH [OF rest, of n k] by (simp add: createLineItem_unknown kept_def)
  next
    case True
    then obtain li where li: "createLineItem n (now k) p q = (Some li, n + 1)"
        "item_id (li_item li) = p" "li_quantity li = q"
      using createLineItem_known [of p n "now k" q] by blast
    then show ?thesis
      using it True Cons.IH [OF rest, of "n + 1" "k + 1"]
      by (auto simp: kept_def entry_of_def split: prod.splits)
  qed
qed

lemma createLineItems_quantity:
  assumes "forEach_validate lis = None" and "li \<in> set (fst (createLineItems n now k lis))"
  shows "1 \<le> li_quantity li \<and> li_quantity li \<le> 100"
proof -
  have "entry_of li \<in> set (map entry_of (fst (createLineItems n now k lis)))"
    using assms(2) by simp
  then have "entry_of li \<in> set (map (\<lambda>it. (raw_id it, quantity it)) (kept lis))"
    using createLineItems_cart [OF assms(1)] by simp
  then obtain it where "it \<in> set lis" "quantity it = Some (li_quantity li)"
    by (auto simp: kept_def entry_of_def)
  then show ?thesis
    using assms(1) by (auto simp: forEach_validate_None)
qed

lemma validateLineItems_None:
  "validateLineItems lis = None \<longleftrightarrow> lis \<noteq> [] \<and> forEach_validate lis = None"
  by (simp add: validateLineItems_def)

subsection \<open>Unknown products\<close>

lemma create_checkout_cart:
  assumes "c_line_items b = Some lis" and "validateLineItems lis = None"
  shows "\<exists>st' c. create_checkout now k b st = (st', (201, Session (json (heap st') c))) \<and>
           checkouts st' (now 0) = Some c \<and>
           map entry_of (line_items c) = map (\<lambda>it. (raw_id it, quantity it)) (kept lis)"
proof -
  obtain r n where r: "createLineItems (lineItemCounter st) now 1 lis = (r, n)"
    by (cases "createLineItems (lineItemCounter st) now 1 lis")
  have "forEach_validate lis = None"
    using assms(2) by (simp add: validateLineItems_None)
  then have "map entry_of r = map (\<lambda>it. (raw_id it, quantity it)) (kept lis)"
    using createLineItems_cart [of lis "lineItemCounter st" now 1] r by simp
  moreover have "lis \<noteq> []"
    using assms(2) by (simp add: validateLineItems_None)
  ultimately show ?thesis
    using assms r by (simp add: create_checkout_def Let_def)
qed

lemma update_checkout_cart:
  assumes "u_line_items u = Some lis" and "validateLineItems lis = None"
    and "checkouts st i = Some c0" and "\<not> expires_at c0 < now 0"
  shows "\<exists>st' c. update_checkout now k i u st = (st', (200, Session (json (heap st') c))) \<and>
           checkouts st' i = Some c \<and>
           map entry_of (line_items c) = map (\<lambda>it. (raw_id it, quantity it)) (kept lis)"
proof -
  obtain r n where r: "createLineItems (lineItemCounter st) now 1 lis = (r, n)"
    by (cases "createLineItems (lineItemCounter st) now 1 lis")
  have "forEach_validate lis = None"
    using assms(2) by (simp add: validateLineItems_None)
  then have "map entry_of r = map (\<lambda>it. (raw_id it, quantity it)) (kept lis)"
    using createLineItems_cart [of lis "lineItemCounter st" now 1] r by simp
  then show ?thesis
    using assms r by (simp add: update_checkout_def Let_def)
qed

text \<open>
  Claim C9. The line items of a create or of an update pass \<open>validateLineItems\<close>, and the
  request is carried out (for the update: on a stored, unexpired session). Then the call
  succeeds (201 for create, 200 for update) whether or not some entries name products the
  catalog does not have, and the cart of the session it stores consists of exactly the
  entries with a catalog product, in their order and with their quantities: the others
  are left out.
\<close>

theorem unknown_products_are_dropped:
  assumes "validateLineItems lis = None" and "\<not> replayed k st"
  shows "(c_line_items b = Some lis \<longrightarrow>
            (\<exists>st' c. serve now (POST_create k b) st = (st', (201, Session (json (heap st') c))) \<and>
               checkouts st' (now 0) = Some c \<and>
               map entry_of (line_items c) = map (\<lambda>it. (raw_id it, quantity it)) (kept lis))) \<and>
         (u_line_items u = Some lis \<and> checkouts st i = Some c0 \<and> \<not> expires_at c0 < now 0 \<longrightarrow>
            (\<exists>st' c. serve now (PUT_update k i u) st = (st', (200, Session (json (heap st') c))) \<and>
               checkouts st' i = Some c \<and>
               map entry_of (line_items c) = map (\<lambda>it. (raw_id it, quantity it)) (kept lis)))"
  using assms create_checkout_cart [of b lis now k st] update_checkout_cart [of u lis st i c0 now k]
  by (simp add: serve_def handleIdempotency_fresh)

theorem unknown_products_are_dropped_witness:
  "kept ex_mixed = [\<lparr>raw_id = Some ''1'', quantity = Some 12\<rparr>] \<and>
   (\<exists>st' c. serve (instant 1000) (POST_create None \<lparr>c_line_items = Some ex_mixed, c_buyer = None,
                                           c_currency = None\<rparr>) init
               = (st', (201, Session (json (heap st') c))) \<and>
      checkouts st' 1000 = Some c \<and>
      map entry_of (line_items c) = map (\<lambda>it. (raw_id it, quantity it)) (kept ex_mixed)) \<and>
   (\<exists>st' c. serve (instant 2000) (PUT_update None 1000 \<lparr>u_line_items = Some ex_mixed, u_buyer = None\<rparr>)
               ex_created
               = (st', (200, Session (json (heap st') c))) \<and>
      checkouts st' 1000 = Some c \<and>
      map entry_of (line_items c) = map (\<lambda>it. (raw_id it, quantity it)) (kept ex_mixed))"
proof -
  have valid: "validateLineItems ex_mixed = None"
    by code_simp
  have fresh: "\<not> replayed None init" and executed: "\<not> replayed None ex_created"
    by (simp_all add: replayed_def)
  have stored: "checkouts ex_created 1000 = Some ex_cart"
    by code_simp
  have live: "\<not> expires_at ex_cart < instant 2000 0"
    by code_simp
  have cart: "kept ex_mixed = [\<lparr>raw_id = Some ''1'', quantity = Some 12\<rparr>]"
    by code_simp
  show ?thesis
    using unknown_products_are_dropped [OF valid fresh,
        where b = "\<lparr>c_line_items = Some ex_mixed, c_buyer = None, c_currency = None\<rparr>"
          and now = "instant 1000"]
      unknown_products_are_dropped [OF valid executed,
        where u = "\<lparr>u_line_items = Some ex_mixed, u_buyer = None\<rparr>"
          and now = "instant 2000" and i = 1000 and ?c0.0 = ex_cart]
      stored live cart
    by simp
qed

subsection \<open>Where a stored session comes from\<close>

lemma in_range_created:
  "lis = [] \<or> forEach_validate lis = None \<Longrightarrow> in_range (fst (createLineItems n now k lis))"
  using createLineItems_quantity [of lis _ n now k]
  by (auto simp: in_range_def list_all_iff)

lemma create_checkout_stored:
  assumes "checkouts (fst (create_checkout now k b st)) i = Some c"
  shows "checkouts st i = Some c \<or>
         (i = now 0 \<and> (\<exists>k. expires_at c = now k + SIX_HOURS) \<and> in_range (line_items c))"
proof (cases "i = now 0")
  case False
  then show ?thesis using assms by (simp add: checkouts_create_other)
next
  case True
  let ?lis = "case c_line_items b of None \<Rightarrow> [] | Some lis \<Rightarrow> lis"
  obtain r n where r: "createLineItems (lineItemCounter st) now 1 ?lis = (r, n)"
    by (cases "createLineItems (lineItemCounter st) now 1 ?lis")
  show ?thesis
  proof (cases "case c_line_items b of None \<Rightarrow> None
                | Some lis \<Rightarrow> if length lis > 0 then validateLineItems lis else None")
    case (Some m)
    then show ?thesis using assms by (simp add: create_checkout_def)
  next
    case None
    then have "?lis = [] \<or> forEach_validate ?lis = None"
      by (auto simp: validateLineItems_None split: option.splits if_splits)
    then have "in_range r"
      using in_range_created [of ?lis "lineItemCounter st" now 1] r by simp
    then show ?thesis
      using assms None r True by (auto simp: create_checkout_def Let_def)
  qed
qed

lemma update_checkout_stored:
  assumes "checkouts (fst (update_checkout now k j b st)) i = Some c"
  shows "checkouts st i = Some c \<or>
         (\<exists>c0. checkouts st i = Some c0 \<and> expires_at c = expires_at c0 \<and>
               (line_items c = line_items c0 \<or> in_range (line_items c)))"
proof (cases "i = j")
  case False
  then show ?thesis using assms by (simp add: checkouts_update_other)
next
  case True
  show ?thesis
  proof (cases "checkouts st j")
    case None
    then show ?thesis using assms True by (simp add: update_checkout_def)
  next
    case (Some c0)
    show ?thesis
    proof (cases "expires_at c0 < now 0")
      case True
      then show ?thesis using assms Some \<open>i = j\<close> by (simp add: update_checkout_def)
    next
      case live: False
      show ?thesis
      proof (cases "u_line_items b")
        case None
        then show ?thesis
          using assms Some live \<open>i = j\<close> by (auto simp: update_checkout_def Let_def)
      next
        case (Some lis)
        obtain r n where r: "createLineItems (lineItemCounter st) now 1 lis = (r, n)"
          by (cases "createLineItems (lineItemCounter st) now 1 lis")
        show ?thesis
        proof (cases "validateLineItems lis")
          case (Some m)
          then show ?thesis
            using assms \<open>checkouts st j = Some c0\<close> \<open>u_line_items b = Some lis\<close> live \<open>i = j\<close>
            by (simp add: update_checkout_def)
        next
          case None
          then have "in_range r"
            using in_range_created [of lis "lineItemCounter st" now 1] r
            by (simp add: validateLineItems_None)
          then show ?thesis
            using assms \<open>checkouts st j = Some c0\<close> \<open>u_line_items b = Some lis\<close> live \<open>i = j\<close> None r
            by (auto simp: update_checkout_def Let_def)
        qed
      qed
    qed
  qed
qed

lemma complete_checkout_stored:
  assumes "checkouts (fst (complete_checkout now k j st)) i = Some c"
  shows "checkouts st i = Some c \<or>
         (\<exists>c0. checkouts st i = Some c0 \<and> expires_at c = expires_at c0 \<and>
               line_items c = line_items c0)"
proof (cases "i = j")
  case False
  then show ?thesis using assms by (simp add: checkouts_complete_other)
next
  case True
  then show ?thesis
    using assms
    by (cases "checkouts st j")
       (auto simp: complete_checkout_def Let_def split: if_splits)
qed

lemma get_checkout_stored:
  assumes "checkouts (fst (get_checkout now j st)) i = Some c"
  shows "checkouts st i = Some c"
  using assms by (cases "checkouts st j") (auto simp: get_checkout_def split: if_splits)

lemma serve_stored:
  assumes "checkouts (fst (serve now rq st)) i = Some c"
  shows "(\<exists>c0. checkouts st i = Some c0 \<and> expires_at c = expires_at c0 \<and>
               (line_items c = line_items c0 \<or> in_range (line_items c))) \<or>
         (i = now 0 \<and> (\<exists>k. expires_at c = now k + SIX_HOURS) \<and> in_range (line_items c))"
  using serve_store_cases [of now rq st]
proof (elim disjE exE conjE)
  assume "fst (serve now rq st) = st"
  then show ?thesis using assms by simp
next
  fix k b assume "fst (serve now rq st) = fst (create_checkout now k b st)"
  then show ?thesis using assms create_checkout_stored [of now k b st i c] by auto
next
  fix j assume "fst (serve now rq st) = fst (get_checkout now j st)"
  then show ?thesis using assms get_checkout_stored [of now j st i c] by auto
next
  fix k j b assume "fst (serve now rq st) = fst (update_checkout now k j b st)"
  then show ?thesis using assms update_checkout_stored [of now k j b st i c] by auto
next
  fix k j assume "fst (serve now rq st) = fst (complete_checkout now k j st)"
  then show ?thesis using assms complete_checkout_stored [of now k j st i c] by auto
qed

lemma apply_event_stored:
  assumes "checkouts (apply_event st e) i = Some c"
  shows "(\<exists>c0. checkouts st i = Some c0 \<and> expires_at c = expires_at c0 \<and>
               (line_items c = line_items c0 \<or> in_range (line_items c))) \<or>
         (i = fst e 0 \<and> (\<exists>k. expires_at c = fst e k + SIX_HOURS) \<and> in_range (line_items c))"
proof -
  obtain now ev where e: "e = (now, ev)" by (cases e)
  show ?thesis
  proof (cases ev)
    case (Request rq)
    then show ?thesis
      using assms e serve_stored [of now rq st i c] by (simp add: apply_event_def)
  next
    case Sweep
    then show ?thesis
      using assms e
      by (auto simp: apply_event_def cleanup_sessions_def split: option.splits if_splits)
  next
    case Forget
    then show ?thesis
      using assms e by (simp add: apply_event_def cleanup_idempotency_def)
  qed
qed

lemma absent_kept:
  assumes "checkouts st i = None" and "fst e 0 \<noteq> i"
  shows "checkouts (apply_event st e) i = None"
proof (cases "checkouts (apply_event st e) i")
  case None
  then show ?thesis .
next
  case (Some c)
  then show ?thesis
    using apply_event_stored [of st e i c] assms by auto
qed

lemma quantities_kept:
  assumes "quantities_in_range st"
  shows "quantities_in_range (apply_event st e)"
  unfolding quantities_in_range_def
proof (intro allI impI)
  fix i c assume "checkouts (apply_event st e) i = Some c"
  then show "in_range (line_items c)"
    using apply_event_stored [of st e i c] assms
    by (auto simp: quantities_in_range_def)
qed

lemma expiry_kept:
  assumes "expiry_set st" and "forward (fst e)"
  shows "expiry_set (apply_event st e)"
  unfolding expiry_set_def
proof (intro allI impI)
  fix i c assume "checkouts (apply_event st e) i = Some c"
  then consider c0 where "checkouts st i = Some c0" "expires_at c = expires_at c0"
    | k where "i = fst e 0" "expires_at c = fst e k + SIX_HOURS"
    using apply_event_stored [of st e i c] by blast
  then show "i + SIX_HOURS \<le> expires_at c"
  proof cases
    case 1
    then show ?thesis using assms(1) by (simp add: expiry_set_def)
  next
    case 2
    have "fst e 0 \<le> fst e k"
      using assms(2) by (simp add: forward_def)
    then show ?thesis using 2 by simp
  qed
qed

lemma quantities_run: "quantities_in_range st \<Longrightarrow> quantities_in_range (run st es)"
  unfolding run_def by (induction es arbitrary: st) (simp_all add: quantities_kept)

lemma expiry_run:
  "expiry_set st \<Longrightarrow> \<forall>e \<in> set es. forward (fst e) \<Longrightarrow> expiry_set (run st es)"
  unfolding run_def by (induction es arbitrary: st) (simp_all add: expiry_kept)

lemma absent_run:
  "checkouts st i = None \<Longrightarrow> \<forall>e \<in> set es. fst e 0 \<noteq> i \<Longrightarrow> checkouts (run st es) i = None"
  unfolding run_def by (induction es arbitrary: st) (simp_all add: absent_kept)

lemma init_invariants: "quantities_in_range init" "expiry_set init"
  by (simp_all add: quantities_in_range_def expiry_set_def init_def)

subsection \<open>Quantities\<close>

text \<open>
  Claim C8, as amended. After any sequence of requests and timer runs on a fresh server,
  every line item of every stored session has a quantity that is a number between 1 and
  100, both included. It need not be an integer.
\<close>

theorem stored_quantity_in_range:
  assumes "checkouts (run init es) i = Some c" and "li \<in> set (line_items c)"
  shows "1 \<le> li_quantity li \<and> li_quantity li \<le> 100"
proof -
  have "quantities_in_range (run init es)"
    using init_invariants(1) by (rule quantities_run)
  then have "in_range (line_items c)"
    using assms(1) by (auto simp: quantities_in_range_def)
  then show ?thesis
    using assms(2) by (auto simp: in_range_def list_all_iff)
qed

theorem stored_quantity_in_range_witness:
  "checkouts (run init [(instant 1000, Request (POST_create None ex_half))]) 1000 = Some ex_half_cart \<and>
   ex_half_item \<in> set (line_items ex_half_cart) \<and>
   1 \<le> li_quantity ex_half_item \<and> li_quantity ex_half_item \<le> 100"
proof -
  have stored: "checkouts (run init [(instant 1000, Request (POST_create None ex_half))]) 1000
      = Some ex_half_cart"
    by code_simp
  have member: "ex_half_item \<in> set (line_items ex_half_cart)"
    by (simp add: ex_half_cart_def)
  show ?thesis
    using stored_quantity_in_range [OF stored member] stored member by simp
qed

text \<open>
  Claim C8 as it is written fails: a create with the quantity 1.5 passes
  \<open>validateLineItems\<close>, which compares the quantity with 1 and 100 and nothing else, and
  the session is stored with that quantity.
\<close>

theorem fractional_quantity_is_stored:
  "map_option (\<lambda>c. map li_quantity (line_items c))
     (checkouts (fst (serve (instant 1000) (POST_create None ex_half) init)) 1000) = Some [3 / 2] \<and>
   (3 / 2 :: rat) \<notin> \<int>"
proof -
  have "(3 / 2 :: rat) \<notin> \<int>"
  proof
    assume "(3 / 2 :: rat) \<in> \<int>"
    then obtain k :: int where "(3 / 2 :: rat) = of_int k"
      by (auto elim: Ints_cases)
    then have "(of_int (2 * k) :: rat) = of_int 3"
      by simp
    then have "2 * k = 3"
      by (simp only: of_int_eq_iff)
    then show False
      by presburger
  qed
  moreover have "map_option (\<lambda>c. map li_quantity (line_items c))
     (checkouts (fst (serve (instant 1000) (POST_create None ex_half) init)) 1000) = Some [3 / 2]"
    by code_simp
  ultimately show ?thesis by simp
qed

subsection \<open>Expiry\<close>

lemma expired_get:
  "checkouts st i = Some c \<Longrightarrow> expires_at c < now 0 \<Longrightarrow>
     get_checkout now i st =
       (st\<lparr>checkouts := (checkouts st)(i := None)\<rparr>,
        (404, ucpError ''expired'' ''Checkout session has expired''))"
  by (simp add: get_checkout_def)

lemma expired_update:
  "checkouts st i = Some c \<Longrightarrow> expires_at c < now 0 \<Longrightarrow>
     update_checkout now k i u st =
       (st\<lparr>checkouts := (checkouts st)(i := None)\<rparr>,
        (404, ucpError ''expired'' ''Checkout session has expired''))"
  by (simp add: update_checkout_def)

lemma expired_complete:
  "checkouts st i = Some c \<Longrightarrow> expires_at c < now 0 \<Longrightarrow>
     complete_checkout now k i st =
       (st\<lparr>checkouts := (checkouts st)(i := None)\<rparr>,
        (404, ucpError ''expired'' ''Checkout session has expired''))"
  by (simp add: complete_checkout_def)

lemma absent_get:
  "checkouts st i = None \<Longrightarrow>
     snd (get_checkout now i st) = (404, ucpError ''not_found'' ''Checkout not found'')"
  by (simp add: get_checkout_def)

text \<open>
  Claim C3. The server has run any history of events in each of which the clock did not run
  backwards, and a session is stored whose \<open>expires_at\<close> lies strictly before the reading
  \<open>now 0\<close> that the expiry check of a request takes. If that request is a get of the
  session, or an update or a complete of it that is carried out (not answered from the
  idempotency cache), it removes the session from the store, changes nothing else, and
  answers 404 with the status \<open>canceled\<close> and one message, whose code is \<open>expired\<close>. From then
  on, whatever events follow while the clock does not fall behind that reading, a get of the
  id answers 404 with one message whose code is \<open>not_found\<close>, the answer for an id without
  session.
\<close>

theorem expired_session_is_evicted:
  assumes "\<forall>e \<in> set es0. forward (fst e)"
    and "checkouts (run init es0) i = Some c" and "expires_at c < now 0"
    and "rq = GET_session i \<or>
         (\<not> replayed k (run init es0) \<and> (rq = PUT_update k i u \<or> rq = POST_complete k i))"
    and "\<forall>e \<in> set es. now 0 \<le> fst e 0"
  shows "serve now rq (run init es0) =
           ((run init es0)\<lparr>checkouts := (checkouts (run init es0))(i := None)\<rparr>,
            (404, Failure canceled
               [\<lparr>mtype = ''error'', code = ''expired'', severity = Some ''requires_buyer_input'',
                 content = ''Checkout session has expired'', path = None\<rparr>])) \<and>
         snd (serve now' (GET_session i) (run (fst (serve now rq (run init es0))) es)) =
           (404, Failure canceled
              [\<lparr>mtype = ''error'', code = ''not_found'', severity = Some ''requires_buyer_input'',
                content = ''Checkout not found'', path = None\<rparr>])"
proof -
  let ?st = "run init es0"
  let ?st1 = "?st\<lparr>checkouts := (checkouts ?st)(i := None)\<rparr>"
  have first: "serve now rq ?st = (?st1, (404, ucpError ''expired'' ''Checkout session has expired''))"
    using assms(4) expired_get [where now = now, OF assms(2,3)]
      expired_update [where now = now, OF assms(2,3)]
      expired_complete [where now = now, OF assms(2,3)]
    by (auto simp: serve_def handleIdempotency_fresh)
  have "expiry_set ?st"
    using init_invariants(2) assms(1) by (rule expiry_run)
  then have "i + SIX_HOURS \<le> expires_at c"
    using assms(2) by (simp add: expiry_set_def)
  then have "i < now 0"
    using assms(3) by (simp add: SIX_HOURS_def)
  then have later: "\<forall>e \<in> set es. fst e 0 \<noteq> i"
    using assms(5) by auto
  have "checkouts ?st1 i = None"
    by simp
  then have "checkouts (run ?st1 es) i = None"
    using later by (rule absent_run)
  then have "snd (serve now' (GET_session i) (run ?st1 es)) =
      (404, ucpError ''not_found'' ''Checkout not found'')"
    by (simp add: serve_def absent_get)
  then show ?thesis
    using first by (simp add: ucpError_def)
qed

theorem expired_session_is_evicted_witness:
  "serve (ticking 21601003) (PUT_update (Some ''k2'') 1000 ex_contact)
       (run init [(ticking 1000, Request (POST_create (Some ''k1'') ex_roses))]) =
     ((run init [(ticking 1000, Request (POST_create (Some ''k1'') ex_roses))])
        \<lparr>checkouts :=
           (checkouts (run init [(ticking 1000, Request (POST_create (Some ''k1'') ex_roses))]))
             (1000 := None)\<rparr>,
      (404, Failure canceled
         [\<lparr>mtype = ''error'', code = ''expired'', severity = Some ''requires_buyer_input'',
           content = ''Checkout session has expired'', path = None\<rparr>])) \<and>
   snd (serve (instant 21601005) (GET_session 1000)
          (run (fst (serve (ticking 21601003) (PUT_update (Some ''k2'') 1000 ex_contact)
                       (run init [(ticking 1000, Request (POST_create (Some ''k1'') ex_roses))])))
               [(ticking 21601004, Request (POST_create None ex_roses))])) =
     (404, Failure canceled
        [\<lparr>mtype = ''error'', code = ''not_found'', severity = Some ''requires_buyer_input'',
          content = ''Checkout not found'', path = None\<rparr>])"
proof -
  have steady: "\<forall>e \<in> set [(ticking 1000, Request (POST_create (Some ''k1'') ex_roses))].
      forward (fst e)"
    by simp
  have stored: "checkouts (run init [(ticking 1000, Request (POST_create (Some ''k1'') ex_roses))]) 1000
      = Some ex_ticked"
    by code_simp
  have stale: "expires_at ex_ticked < ticking 21601003 0"
    by code_simp
  have executed: "PUT_update (Some ''k2'') 1000 ex_contact = GET_session 1000 \<or>
      (\<not> replayed (Some ''k2'')
           (run init [(ticking 1000, Request (POST_create (Some ''k1'') ex_roses))]) \<and>
       (PUT_update (Some ''k2'') 1000 ex_contact = PUT_update (Some ''k2'') 1000 ex_contact \<or>
        PUT_update (Some ''k2'') 1000 ex_contact = POST_complete (Some ''k2'') 1000))"
    by code_simp
  have clock: "\<forall>e \<in> set [(ticking 21601004, Request (POST_create None ex_roses))].
      ticking 21601003 0 \<le> fst e 0"
    by (simp add: ticking_def)
  show ?thesis
    using expired_session_is_evicted [where now = "ticking 21601003" and now' = "instant 21601005",
        OF steady stored stale executed clock] .
qed

subsection \<open>Buyers\<close>

lemma emailRegex_test_nonempty: "emailRegex_test e \<Longrightarrow> e \<noteq> []"
  by (auto simp: emailRegex_test_def)

lemma cleaned_email: "cleaned sanitizeEmail v = Some e \<Longrightarrow> emailRegex_test e"
  by (auto simp: cleaned_def sanitizeEmail_def Let_def split: option.splits if_splits)

lemma cleaned_name: "cleaned sanitizeName v = Some n \<Longrightarrow> n \<noteq> []"
  by (auto simp: cleaned_def split: option.splits if_splits)

lemma sanitized_new:
  "sanitized \<lparr>email = cleaned sanitizeEmail v, full_name = cleaned sanitizeName w\<rparr>"
  using cleaned_email [of v] cleaned_name [of w]
  by (auto simp: sanitized_def split: option.splits)

lemma sanitized_patch:
  assumes "sanitized old"
  shows "sanitized \<lparr>email = (case cleaned sanitizeEmail v of None \<Rightarrow> email old | Some e \<Rightarrow> Some e),
                    full_name = (case cleaned sanitizeName w of None \<Rightarrow> full_name old | Some n \<Rightarrow> Some n)\<rparr>"
  using assms cleaned_email [of v] cleaned_name [of w]
  by (auto simp: sanitized_def split: option.splits)

lemma heap_create:
  "heap (fst (create_checkout now k b st)) a = heap st a \<or>
   heap (fst (create_checkout now k b st)) a =
     \<lparr>email = cleaned sanitizeEmail (case c_buyer b of None \<Rightarrow> None | Some x \<Rightarrow> email x),
      full_name = cleaned sanitizeName (case c_buyer b of None \<Rightarrow> None | Some x \<Rightarrow> full_name x)\<rparr>"
  by (simp add: create_checkout_def Let_def split: option.splits prod.splits)

lemma heap_update:
  "heap (fst (update_checkout now k j u st)) = heap st \<or>
   (\<exists>c0 x. checkouts st j = Some c0 \<and> u_buyer u = Some x \<and>
      heap (fst (update_checkout now k j u st)) = (heap st)(buyer c0 :=
        \<lparr>email = (case cleaned sanitizeEmail (email x) of
                     None \<Rightarrow> email (heap st (buyer c0)) | Some e \<Rightarrow> Some e),
         full_name = (case cleaned sanitizeName (full_name x) of
                     None \<Rightarrow> full_name (heap st (buyer c0)) | Some n \<Rightarrow> Some n)\<rparr>))"
proof (cases "checkouts st j")
  case None
  then show ?thesis by (simp add: update_checkout_def)
next
  case (Some c0)
  show ?thesis
  proof (cases "u_buyer u")
    case None
    then show ?thesis
      using Some by (simp add: update_checkout_def Let_def split: option.splits prod.splits)
  next
    case buyer: (Some x)
    then show ?thesis
      using Some by (simp add: update_checkout_def Let_def split: option.splits prod.splits)
  qed
qed

lemma heap_complete: "heap (fst (complete_checkout now k j st)) = heap st"
  by (simp add: complete_checkout_def Let_def split: option.splits)

lemma heap_get: "heap (fst (get_checkout now j st)) = heap st"
  by (simp add: get_checkout_def split: option.splits)

lemma sanitized_serve:
  assumes "buyers_sanitized st"
  shows "buyers_sanitized (fst (serve now rq st))"
  unfolding buyers_sanitized_def
proof
  fix a
  have old: "sanitized (heap st a)"
    using assms by (simp add: buyers_sanitized_def)
  from serve_store_cases [of now rq st] show "sanitized (heap (fst (serve now rq st)) a)"
  proof (elim disjE exE conjE)
    assume "fst (serve now rq st) = st"
    then show ?thesis using old by simp
  next
    fix k b assume "fst (serve now rq st) = fst (create_checkout now k b st)"
    then show ?thesis using old heap_create [of now k b st a] sanitized_new by auto
  next
    fix j assume "fst (serve now rq st) = fst (get_checkout now j st)"
    then show ?thesis using old by (simp add: heap_get)
  next
    fix k j b assume "fst (serve now rq st) = fst (update_checkout now k j b st)"
    then show ?thesis
      using heap_update [of now k j b st] sanitized_patch [of "heap st _"] old assms
      by (auto simp: buyers_sanitized_def)
  next
    fix k j assume "fst (serve now rq st) = fst (complete_checkout now k j st)"
    then show ?thesis using old by (simp add: heap_complete)
  qed
qed

lemma sanitized_event:
  assumes "buyers_sanitized st"
  shows "buyers_sanitized (apply_event st e)"
proof -
  obtain now ev where e: "e = (now, ev)" by (cases e)
  show ?thesis
  proof (cases ev)
    case (Request rq)
    then show ?thesis
      using e sanitized_serve [OF assms, of now rq] by (simp add: apply_event_def)
  next
    case Sweep
    then show ?thesis
      using e assms by (simp add: apply_event_def buyers_sanitized_def cleanup_sessions_def)
  next
    case Forget
    then show ?thesis
      using e assms by (simp add: apply_event_def buyers_sanitized_def cleanup_idempotency_def)
  qed
qed

lemma sanitized_run: "buyers_sanitized st \<Longrightarrow> buyers_sanitized (run st es)"
  unfolding run_def by (induction es arbitrary: st) (simp_all add: sanitized_event)

lemma sanitized_init: "buyers_sanitized init"
  by (simp add: buyers_sanitized_def sanitized_def init_def)

subsection \<open>The status after create and update\<close>

lemma determineStatus_ready:
  "determineStatus b lineItems = ready_for_complete \<longleftrightarrow>
     truthy (email b) \<and> truthy (full_name b) \<and> lineItems \<noteq> []"
  by (auto simp: determineStatus_def)

lemma determineStatus_cases:
  "determineStatus b lineItems = ready_for_complete \<or> determineStatus b lineItems = incomplete"
  by (simp add: determineStatus_def)

lemma truthy_email:
  "sanitized b \<Longrightarrow> truthy (email b) \<longleftrightarrow> (\<exists>e. email b = Some e \<and> e \<noteq> [] \<and> emailRegex_test e)"
  by (auto simp: sanitized_def truthy_def split: option.splits)

lemma truthy_name:
  "truthy (full_name b) \<longleftrightarrow> (\<exists>n. full_name b = Some n \<and> n \<noteq> [])"
  by (auto simp: truthy_def split: option.splits)

lemma create_checkout_status:
  assumes "snd (create_checkout now k b st) = (http, Session s)"
  shows "\<exists>c. checkouts (fst (create_checkout now k b st)) (now 0) = Some c \<and>
           status c = determineStatus (heap (fst (create_checkout now k b st)) (buyer c)) (line_items c)"
proof (cases "case c_line_items b of None \<Rightarrow> None
              | Some lis \<Rightarrow> if length lis > 0 then validateLineItems lis else None")
  case (Some m)
  then show ?thesis using assms by (simp add: create_checkout_def ucpError_def)
next
  case None
  obtain r n where "createLineItems (lineItemCounter st) now 1
      (case c_line_items b of None \<Rightarrow> [] | Some lis \<Rightarrow> lis) = (r, n)"
    by (cases "createLineItems (lineItemCounter st) now 1
      (case c_line_items b of None \<Rightarrow> [] | Some lis \<Rightarrow> lis)")
  then show ?thesis
    using None by (simp add: create_checkout_def Let_def)
qed

lemma update_checkout_status:
  assumes "snd (update_checkout now k i u st) = (http, Session s)"
  shows "\<exists>c. checkouts (fst (update_checkout now k i u st)) i = Some c \<and>
           status c = determineStatus (heap (fst (update_checkout now k i u st)) (buyer c)) (line_items c)"
proof (cases "checkouts st i")
  case None
  then show ?thesis using assms by (simp add: update_checkout_def ucpError_def)
next
  case (Some c0)
  show ?thesis
  proof (cases "expires_at c0 < now 0")
    case True
    then show ?thesis using assms Some by (simp add: update_checkout_def ucpError_def)
  next
    case live: False
    show ?thesis
    proof (cases "case u_line_items u of None \<Rightarrow> None | Some lis \<Rightarrow> validateLineItems lis")
      case (Some m)
      then show ?thesis
        using assms \<open>checkouts st i = Some c0\<close> live by (simp add: update_checkout_def ucpError_def)
    next
      case None
      then show ?thesis
        using \<open>checkouts st i = Some c0\<close> live
        by (simp add: update_checkout_def Let_def split: option.splits prod.splits)
    qed
  qed
qed

text \<open>
  Claim C4. On a server that has run any history of events, a create or an update is
  carried out (not answered from the idempotency cache) and succeeds, that is, answers with
  a session. Then the session it has stored has the status \<open>ready_for_complete\<close> if and
  only if its buyer has an email (not empty, and of the shape the sanitiser lets through)
  and a full name (not empty) and it has at least one line item; otherwise its status is
  \<open>incomplete\<close>.
\<close>

theorem status_after_create_or_update:
  assumes "\<not> replayed k (run init es)"
    and "rq = POST_create k b \<and> i = now 0 \<or> rq = PUT_update k i u"
    and "snd (serve now rq (run init es)) = (http, Session s)"
  shows "\<exists>c. checkouts (fst (serve now rq (run init es))) i = Some c \<and>
           (status c = ready_for_complete \<longleftrightarrow>
              (\<exists>e. email (heap (fst (serve now rq (run init es))) (buyer c)) = Some e \<and>
                   e \<noteq> [] \<and> emailRegex_test e) \<and>
              (\<exists>n. full_name (heap (fst (serve now rq (run init es))) (buyer c)) = Some n \<and>
                   n \<noteq> []) \<and>
              line_items c \<noteq> []) \<and>
           (status c = ready_for_complete \<or> status c = incomplete)"
proof -
  let ?st = "run init es"
  let ?st' = "fst (serve now rq ?st)"
  have "buyers_sanitized ?st"
    using sanitized_init by (rule sanitized_run)
  then have "buyers_sanitized ?st'"
    by (rule sanitized_serve)
  then have clean: "sanitized (heap ?st' a)" for a
    by (simp add: buyers_sanitized_def)
  have "\<exists>c. checkouts ?st' i = Some c \<and>
          status c = determineStatus (heap ?st' (buyer c)) (line_items c)"
    using assms(2)
  proof
    assume "rq = POST_create k b \<and> i = now 0"
    then show ?thesis
      using assms(1,3) create_checkout_status [of now k b ?st http s]
      by (simp add: serve_def handleIdempotency_fresh)
  next
    assume "rq = PUT_update k i u"
    then show ?thesis
      using assms(1,3) update_checkout_status [of now k i u ?st http s]
      by (simp add: serve_def handleIdempotency_fresh)
  qed
  then obtain c where c: "checkouts ?st' i = Some c"
    "status c = determineStatus (heap ?st' (buyer c)) (line_items c)"
    by blast
  have "status c = ready_for_complete \<longleftrightarrow>
          (\<exists>e. email (heap ?st' (buyer c)) = Some e \<and> e \<noteq> [] \<and> emailRegex_test e) \<and>
          (\<exists>n. full_name (heap ?st' (buyer c)) = Some n \<and> n \<noteq> []) \<and> line_items c \<noteq> []"
    using c(2) truthy_email [OF clean, of "buyer c"] truthy_name [of "heap ?st' (buyer c)"]
    by (simp add: determineStatus_ready)
  moreover have "status c = ready_for_complete \<or> status c = incomplete"
    using c(2) determineStatus_cases by simp
  ultimately show ?thesis
    using c(1) by blast
qed

theorem status_after_create_or_update_witness:
  "map_option status
     (checkouts (fst (serve (instant 2000) (PUT_update None 1000 ex_contact)
        (run init [(instant 1000, Request (POST_create (Some ''k1'') ex_roses))]))) 1000)
     = Some ready_for_complete \<and>
   (\<exists>c. checkouts (fst (serve (instant 2000) (PUT_update None 1000 ex_contact)
            (run init [(instant 1000, Request (POST_create (Some ''k1'') ex_roses))]))) 1000 = Some c \<and>
      (status c = ready_for_complete \<longleftrightarrow>
         (\<exists>e. email (heap (fst (serve (instant 2000) (PUT_update None 1000 ex_contact)
                 (run init [(instant 1000, Request (POST_create (Some ''k1'') ex_roses))]))) (buyer c))
                = Some e \<and> e \<noteq> [] \<and> emailRegex_test e) \<and>
         (\<exists>n. full_name (heap (fst (serve (instant 2000) (PUT_update None 1000 ex_contact)
                 (run init [(instant 1000, Request (POST_create (Some ''k1'') ex_roses))]))) (buyer c))
                = Some n \<and> n \<noteq> []) \<and>
         line_items c \<noteq> []) \<and>
      (status c = ready_for_complete \<or> status c = incomplete))"
proof -
  have executed: "\<not> replayed None (run init [(instant 1000, Request (POST_create (Some ''k1'') ex_roses))])"
    by (simp add: replayed_def)
  have route: "PUT_update None 1000 ex_contact = POST_create None ex_roses \<and> (1000 :: int) = instant 2000 0 \<or>
      PUT_update None 1000 ex_contact = PUT_update None 1000 ex_contact"
    by simp
  have answered: "snd (serve (instant 2000) (PUT_update None 1000 ex_contact)
        (run init [(instant 1000, Request (POST_create (Some ''k1'') ex_roses))])) = (200, Session ex_ready_body)"
    by code_simp
  have ready: "map_option status
     (checkouts (fst (serve (instant 2000) (PUT_update None 1000 ex_contact)
        (run init [(instant 1000, Request (POST_create (Some ''k1'') ex_roses))]))) 1000)
     = Some ready_for_complete"
    by code_simp
  show ?thesis
    using status_after_create_or_update [where now = "instant 2000", OF executed route answered] ready
    by blast
qed

subsection \<open>Rounding\<close>

lemma powi_neg: "0 \<le> j \<Longrightarrow> (2 :: rat) powi (- j) = 1 / 2 ^ nat j"
  by (cases "j = 0") (simp_all add: power_int_def inverse_eq_divide power_one_over)

lemma powi_pos: "0 \<le> j \<Longrightarrow> (2 :: rat) powi j = 2 ^ nat j"
  by (simp add: power_int_def)

lemma powi_half: "(2 :: rat) powi (k - 1) = (1 / 2) * 2 powi k"
  using power_int_diff [of "2 :: rat" k 1] by simp

lemma ilog2_lower:
  assumes "0 < x"
  shows "2 powi (ilog2 x) \<le> x"
proof (cases "1 \<le> x")
  case True
  then have n: "0 < \<lfloor>x\<rfloor>" by simp
  then have "1 \<le> bitlen \<lfloor>x\<rfloor>"
    by (simp add: bitlen_alt_def)
  moreover have "(2 :: int) ^ nat (bitlen \<lfloor>x\<rfloor> - 1) \<le> \<lfloor>x\<rfloor>"
    using bitlen_bounds [OF n] by simp
  then have "(of_int ((2 :: int) ^ nat (bitlen \<lfloor>x\<rfloor> - 1)) :: rat) \<le> x"
    by (simp only: le_floor_iff)
  then have "(2 :: rat) ^ nat (bitlen \<lfloor>x\<rfloor> - 1) \<le> x"
    by simp
  ultimately show ?thesis
    using True by (simp add: ilog2_def powi_pos)
next
  case False
  define y where "y = 1 / x"
  define j where "j = bitlen (\<lceil>y\<rceil> - 1)"
  have y: "1 < y" using False assms by (simp add: y_def)
  then have "1 < \<lceil>y\<rceil>" by (simp add: less_ceiling_iff)
  then have m: "0 < \<lceil>y\<rceil> - 1" by simp
  have "\<lceil>y\<rceil> - 1 < (2 :: int) ^ nat j"
    using bitlen_bounds [OF m] by (simp add: j_def)
  then have "\<lceil>y\<rceil> \<le> (2 :: int) ^ nat j" by simp
  then have "y \<le> of_int ((2 :: int) ^ nat j)"
    by (simp only: ceiling_le_iff)
  then have "y \<le> 2 ^ nat j"
    by simp
  then have "1 / (2 :: rat) ^ nat j \<le> 1 / y"
    using y by (simp add: frac_le)
  moreover have "0 \<le> j" by (simp add: j_def bitlen_nonneg)
  then have "(2 :: rat) powi (- j) = 1 / 2 ^ nat j"
    by (rule powi_neg)
  moreover have "1 / y = x" using assms by (simp add: y_def)
  moreover have "ilog2 x = - j" using False by (simp add: ilog2_def j_def y_def)
  ultimately show ?thesis by simp
qed

lemma ilog2_upper:
  assumes "0 < x"
  shows "x < 2 powi (ilog2 x + 1)"
proof (cases "1 \<le> x")
  case True
  then have n: "0 < \<lfloor>x\<rfloor>" by simp
  then have b: "1 \<le> bitlen \<lfloor>x\<rfloor>"
    by (simp add: bitlen_alt_def)
  have "\<lfloor>x\<rfloor> < (2 :: int) ^ nat (bitlen \<lfloor>x\<rfloor>)"
    using bitlen_bounds [OF n] by simp
  then have "x < of_int ((2 :: int) ^ nat (bitlen \<lfloor>x\<rfloor>))"
    by (simp only: floor_less_iff)
  then have "x < 2 ^ nat (bitlen \<lfloor>x\<rfloor>)"
    by simp
  then show ?thesis
    using True b by (simp add: ilog2_def powi_pos)
next
  case False
  define y where "y = 1 / x"
  define j where "j = bitlen (\<lceil>y\<rceil> - 1)"
  have y: "1 < y" using False assms by (simp add: y_def)
  then have "1 < \<lceil>y\<rceil>" by (simp add: less_ceiling_iff)
  then have m: "0 < \<lceil>y\<rceil> - 1" by simp
  then have j: "1 \<le> j" by (simp add: j_def bitlen_alt_def)
  have "(2 :: int) ^ nat (j - 1) \<le> \<lceil>y\<rceil> - 1"
    using bitlen_bounds [OF m] by (simp add: j_def)
  then have "(2 :: int) ^ nat (j - 1) < \<lceil>y\<rceil>"
    by simp
  then have "of_int ((2 :: int) ^ nat (j - 1)) < y"
    by (simp only: less_ceiling_iff)
  then have "(2 :: rat) ^ nat (j - 1) < y"
    by simp
  then have "1 / y < 1 / (2 :: rat) ^ nat (j - 1)"
    by (simp add: frac_less2)
  moreover have "(2 :: rat) powi (- j + 1) = 1 / 2 ^ nat (j - 1)"
  proof -
    have "- j + 1 = - (j - 1)" by simp
    then show ?thesis
      using j powi_neg [of "j - 1"] by simp
  qed
  moreover have "1 / y = x" using assms by (simp add: y_def)
  moreover have "ilog2 x = - j" using False by (simp add: ilog2_def j_def y_def)
  ultimately show ?thesis by simp
qed

lemma rne_error: "\<bar>of_int (rne y) - y\<bar> \<le> 1 / 2"
proof -
  have "of_int \<lfloor>y\<rfloor> \<le> y" "y < of_int \<lfloor>y\<rfloor> + 1"
    by linarith+
  then show ?thesis
    by (auto simp: rne_def Let_def)
qed

lemma rne_of_int [simp]: "rne (of_int n) = n"
  by (simp add: rne_def)

lemma fl_error:
  assumes "x \<noteq> 0"
  shows "\<bar>fl x - x\<bar> \<le> 2 powi (ilog2 \<bar>x\<bar> - 53)"
proof -
  define u :: rat where "u = 2 powi (ilog2 \<bar>x\<bar> - 52)"
  have u: "0 < u" by (simp add: u_def)
  have "fl x - x = (of_int (rne (x / u)) - x / u) * u"
    using assms u by (simp add: fl_def u_def [symmetric] Let_def algebra_simps)
  then have "\<bar>fl x - x\<bar> = \<bar>of_int (rne (x / u)) - x / u\<bar> * u"
    using u by (simp add: abs_mult)
  also have "\<dots> \<le> (1 / 2) * u"
    using rne_error [of "x / u"] u by (intro mult_right_mono) simp_all
  also have "(1 / 2) * u = 2 powi (ilog2 \<bar>x\<bar> - 53)"
  proof -
    have "ilog2 \<bar>x\<bar> - 53 = (ilog2 \<bar>x\<bar> - 52) - 1" by simp
    then show ?thesis
      using powi_half [of "ilog2 \<bar>x\<bar> - 52"] by (simp add: u_def)
  qed
  finally show ?thesis .
qed

lemma fl_nat:
  assumes "x \<in> \<nat>" and "x < 2 ^ 53"
  shows "fl x = x"
proof (cases "x = 0")
  case True
  then show ?thesis by (simp add: fl_def)
next
  case False
  from assms(1) obtain n :: nat where n: "x = of_nat n"
    by (auto elim: Nats_cases)
  have pos: "0 < x" using False n by simp
  define e where "e = ilog2 \<bar>x\<bar>"
  have "2 powi e \<le> x"
    using ilog2_lower [OF pos] pos by (simp add: e_def)
  then have "(2 :: rat) powi e < 2 powi 53"
    using assms(2) by simp
  then have "e < 53"
    by (rule power_int_le_imp_less_exp [rotated]) simp_all
  define d where "d = nat (52 - e)"
  have u: "(2 :: rat) powi (e - 52) = 1 / 2 ^ d"
  proof -
    have "e - 52 = - (52 - e)" by simp
    then show ?thesis
      using \<open>e < 53\<close> powi_neg [of "52 - e"] by (simp add: d_def)
  qed
  have "fl x = of_int (rne (x / 2 powi (e - 52))) * 2 powi (e - 52)"
    using False by (simp add: fl_def e_def Let_def)
  also have "\<dots> = of_int (rne (x / (1 / 2 ^ d))) * (1 / 2 ^ d)"
    by (simp only: u)
  also have "x / (1 / 2 ^ d) = of_int (int n * 2 ^ d)"
    by (simp add: n)
  also have "rne (of_int (int n * 2 ^ d)) = int n * 2 ^ d"
    by (rule rne_of_int)
  also have "of_int (int n * 2 ^ d) * (1 / 2 ^ d) = x"
    by (simp add: n)
  finally show ?thesis .
qed

lemma lit_0_08_value: "lit_0_08 = 5764607523034235 / 2 ^ 56"
  by code_simp

lemma Nats_nonneg: "(x :: rat) \<in> \<nat> \<Longrightarrow> 0 \<le> x"
  by (auto elim: Nats_cases)

lemma sum_list_Nats:
  "\<forall>x \<in> set xs. f x \<in> \<nat> \<Longrightarrow> (\<Sum>x\<leftarrow>xs. (f x :: rat)) \<in> \<nat>"
  by (induction xs) (simp_all add: Nats_add)

lemma tax_exact:
  fixes s :: int
  assumes "0 \<le> s" and "s < 2 ^ 50"
  shows "Math_round (js_mul (of_int s) lit_0_08) = of_int ((8 * s + 50) div 100)"
proof (cases "s = 0")
  case True
  have "\<lfloor>1 / 2 :: rat\<rfloor> = 0"
    by (rule floor_unique) simp_all
  then show ?thesis
    using True by (simp add: js_mul_def fl_def Math_round_def)
next
  case False
  define S :: rat where "S = of_int s"
  define x :: rat where "x = S * lit_0_08"
  define k where "k = (8 * s + 50) div 100"
  define K :: rat where "K = of_int k"
  have S: "1 \<le> S" "S < 2 ^ 50"
  proof -
    have "1 \<le> s" using False assms(1) by simp
    then show "1 \<le> S" unfolding S_def by (simp only: of_int_1_le_iff)
    have "(of_int s :: rat) < of_int (2 ^ 50)"
      using assms(2) by (simp only: of_int_less_iff)
    then show "S < 2 ^ 50" by (simp add: S_def)
  qed
  have x: "x = S * (5764607523034235 / 72057594037927936)"
    by (simp add: x_def lit_0_08_value)
  have pos: "0 < x" using S x by simp
  have "x < 2 ^ 47" using S x by simp
  then have "x < 2 powi 47" by simp
  then have "(2 :: rat) powi (ilog2 x) < 2 powi 47"
    using ilog2_lower [OF pos] by simp
  then have "ilog2 x < 47"
    by (rule power_int_le_imp_less_exp [rotated]) simp_all
  then have "(2 :: rat) powi (ilog2 x - 53) \<le> 2 powi (- 7)"
    by (intro power_int_increasing) simp_all
  moreover have "\<bar>fl x - x\<bar> \<le> 2 powi (ilog2 \<bar>x\<bar> - 53)"
    using pos by (intro fl_error) simp
  ultimately have err: "\<bar>fl x - x\<bar> \<le> 1 / 128"
    using pos by (simp add: power_int_minus)
  have "100 * k + 2 \<le> 8 * s + 50 \<and> 8 * s + 50 \<le> 100 * k + 98"
    unfolding k_def by presburger
  then have "(of_int (100 * k + 2) :: rat) \<le> of_int (8 * s + 50)"
    and "(of_int (8 * s + 50) :: rat) \<le> of_int (100 * k + 98)"
    by (simp_all only: of_int_le_iff)
  then have K: "100 * K + 2 \<le> 8 * S + 50" "8 * S + 50 \<le> 100 * K + 98"
    by (simp_all add: K_def S_def)
  define y where "y = fl x"
  have e1: "y - x \<le> 1 / 128" and e2: "x - y \<le> 1 / 128"
    using err unfolding y_def by linarith+
  have x': "72057594037927936 * x = 5764607523034235 * S"
    using x by simp
  have S': "S < 1125899906842624"
    using S(2) by simp
  have "\<lfloor>y + 1 / 2\<rfloor> = k"
  proof (rule floor_unique)
    show "of_int k \<le> y + 1 / 2"
      unfolding K_def [symmetric] using e2 K(1) S(1) x' by linarith
    show "y + 1 / 2 < of_int k + 1"
      unfolding K_def [symmetric] using e1 K(2) S' x' by linarith
  qed
  then have "\<lfloor>fl x + 1 / 2\<rfloor> = k"
    by (simp only: y_def)
  then show ?thesis
    by (simp add: Math_round_def js_mul_def x_def S_def k_def)
qed

lemma subtotal_exact:
  assumes "\<forall>it \<in> set lineItems. item_price (li_item it) \<in> \<nat> \<and> li_quantity it \<in> \<nat>"
    and "acc \<in> \<nat>"
    and "acc + (\<Sum>it\<leftarrow>lineItems. item_price (li_item it) * li_quantity it) < 2 ^ 53"
  shows "foldl (\<lambda>sum it. js_add sum (js_mul (item_price (li_item it)) (li_quantity it)))
           acc lineItems
         = acc + (\<Sum>it\<leftarrow>lineItems. item_price (li_item it) * li_quantity it)"
  using assms
proof (induction lineItems arbitrary: acc)
  case Nil
  then show ?case by simp
next
  case (Cons it lineItems)
  define p where "p = item_price (li_item it) * li_quantity it"
  define rest where "rest = (\<Sum>it\<leftarrow>lineItems. item_price (li_item it) * li_quantity it)"
  have p: "p \<in> \<nat>"
    using Cons.prems(1) by (simp add: p_def Nats_mult)
  have "rest \<in> \<nat>"
    unfolding rest_def using Cons.prems(1) by (intro sum_list_Nats) (simp add: Nats_mult)
  then have rest: "0 \<le> rest" by (rule Nats_nonneg)
  have acc: "0 \<le> acc" using Cons.prems(2) by (rule Nats_nonneg)
  have p0: "0 \<le> p" using p by (rule Nats_nonneg)
  have bound: "acc + p + rest < 2 ^ 53"
    using Cons.prems(3) by (simp add: p_def rest_def algebra_simps)
  have "p < 2 ^ 53" using bound acc rest by linarith
  then have mul: "js_mul (item_price (li_item it)) (li_quantity it) = p"
    using p by (simp add: js_mul_def p_def [symmetric] fl_nat)
  have "acc + p < 2 ^ 53" using bound rest by linarith
  moreover have "acc + p \<in> \<nat>" using Cons.prems(2) p by (rule Nats_add)
  ultimately have add: "js_add acc p = acc + p"
    by (simp add: js_add_def fl_nat)
  let ?f = "\<lambda>sum it. js_add sum (js_mul (item_price (li_item it)) (li_quantity it))"
  have IH: "foldl ?f (acc + p) lineItems = acc + p + rest"
    unfolding rest_def
    using Cons.prems(1) \<open>acc + p \<in> \<nat>\<close> bound
    by (intro Cons.IH) (simp_all add: rest_def)
  have "foldl ?f acc (it # lineItems) = foldl ?f (js_add acc p) lineItems"
    by (simp only: foldl.simps mul)
  also have "\<dots> = acc + p + rest"
    by (simp only: add IH)
  also have "\<dots> = acc + (\<Sum>it\<leftarrow>it # lineItems. item_price (li_item it) * li_quantity it)"
    by (simp add: p_def rest_def)
  finally show ?case .
qed

lemma round_half_up_tax:
  "round_half_up (of_int s * 8 / 100) = of_int ((8 * s + 50) div 100)"
proof -
  have "of_int s * 8 / 100 + 1 / 2 = (of_int (8 * s + 50) :: rat) / of_int 100"
    by simp
  then have "\<lfloor>(of_int s :: rat) * 8 / 100 + 1 / 2\<rfloor> = \<lfloor>(of_int (8 * s + 50) :: rat) / of_int 100\<rfloor>"
    by (simp only:)
  also have "\<dots> = (8 * s + 50) div 100"
    by (rule floor_divide_of_int_eq)
  finally show ?thesis
    by (simp only: round_half_up_def)
qed

lemma total_exact:
  fixes s :: int
  assumes "0 \<le> s" and "s < 2 ^ 50"
  shows "js_add (of_int s) (of_int ((8 * s + 50) div 100)) = of_int s + of_int ((8 * s + 50) div 100)"
proof -
  define k where "k = (8 * s + 50) div 100"
  have k0: "0 \<le> k"
    unfolding k_def using assms(1) by simp
  have k1: "k \<le> s + 1"
    unfolding k_def using assms(1) by linarith
  have "s < 1125899906842624"
    using assms(2) by simp
  then have "s + k < 9007199254740992"
    using k1 by linarith
  then have "(of_int (s + k) :: rat) < of_int 9007199254740992"
    by (simp only: of_int_less_iff)
  then have small: "(of_int (s + k) :: rat) < 2 ^ 53"
    by simp
  have "(of_int (s + k) :: rat) = of_nat (nat (s + k))"
    using assms(1) k0 by simp
  then have "(of_int (s + k) :: rat) \<in> \<nat>"
    by (simp only: of_nat_in_Nats)
  then have "fl (of_int (s + k)) = of_int (s + k)"
    using small by (rule fl_nat)
  then show ?thesis
    by (simp add: js_add_def k_def)
qed

text \<open>
  Claim C7. The line items are priced in whole minor units with whole quantities, and
  their subtotal is below \<open>2 ^ 50\<close>, so that every amount in the computation is a whole
  number that binary64 holds exactly. Then \<open>calculateTotals\<close> returns the three entries
  \<open>subtotal\<close>, \<open>tax\<close>, \<open>total\<close> in this order, where the subtotal is the exact sum of unit
  price times quantity, the tax is that subtotal times 8/100 rounded half up, exactly, although
  the code multiplies by the binary64 number nearest to 0.08, and the total is their sum.
\<close>

theorem totals_are_exact:
  assumes "\<forall>it \<in> set lineItems. item_price (li_item it) \<in> \<nat> \<and> li_quantity it \<in> \<nat>"
    and "(\<Sum>it\<leftarrow>lineItems. item_price (li_item it) * li_quantity it) < 2 ^ 50"
  shows "calculateTotals lineItems =
    (let subtotal = (\<Sum>it\<leftarrow>lineItems. item_price (li_item it) * li_quantity it);
         tax = round_half_up (subtotal * 8 / 100)
     in [\<lparr>ttype = ''subtotal'', amount = subtotal, display_text = Some ''Subtotal''\<rparr>,
         \<lparr>ttype = ''tax'', amount = tax, display_text = Some ''Tax (8%)''\<rparr>,
         \<lparr>ttype = ''total'', amount = subtotal + tax, display_text = Some ''Total''\<rparr>])"
proof -
  define sub where "sub = (\<Sum>it\<leftarrow>lineItems. item_price (li_item it) * li_quantity it)"
  have "sub \<in> \<nat>"
    unfolding sub_def using assms(1) by (intro sum_list_Nats) (simp add: Nats_mult)
  then obtain n :: nat where n: "sub = of_nat n"
    by (auto elim: Nats_cases)
  define s where "s = int n"
  have s: "sub = of_int s"
    by (simp add: n s_def)
  have "(of_int s :: rat) < 2 ^ 50"
    using assms(2) unfolding sub_def [symmetric] s .
  then have s50: "s < 2 ^ 50"
    by (simp only: of_int_less_numeral_power_cancel_iff)
  have s0: "0 \<le> s"
    by (simp add: s_def)
  have "sub < 2 ^ 53"
    using assms(2) unfolding sub_def [symmetric] by simp
  then have fold: "foldl (\<lambda>sum it. js_add sum (js_mul (item_price (li_item it)) (li_quantity it)))
                0 lineItems = sub"
    using subtotal_exact [OF assms(1), of 0] by (simp add: sub_def)
  define k where "k = (8 * s + 50) div 100"
  have tax: "Math_round (js_mul sub lit_0_08) = of_int k"
    unfolding s k_def using s0 s50 by (rule tax_exact)
  have spec: "round_half_up (sub * 8 / 100) = of_int k"
    unfolding s k_def by (rule round_half_up_tax)
  have total: "js_add sub (of_int k) = sub + of_int k"
    unfolding s k_def using s0 s50 by (rule total_exact)
  have "calculateTotals lineItems =
     [\<lparr>ttype = ''subtotal'', amount = sub, display_text = Some ''Subtotal''\<rparr>,
      \<lparr>ttype = ''tax'', amount = of_int k, display_text = Some ''Tax (8%)''\<rparr>,
      \<lparr>ttype = ''total'', amount = sub + of_int k, display_text = Some ''Total''\<rparr>]"
    unfolding calculateTotals_def Let_def fold tax total ..
  then show ?thesis
    unfolding Let_def sub_def [symmetric] spec .
qed

theorem totals_are_exact_witness:
  "calculateTotals [ex_dozen] =
     [\<lparr>ttype = ''subtotal'', amount = 3588, display_text = Some ''Subtotal''\<rparr>,
      \<lparr>ttype = ''tax'', amount = 287, display_text = Some ''Tax (8%)''\<rparr>,
      \<lparr>ttype = ''total'', amount = 3875, display_text = Some ''Total''\<rparr>]"
proof -
  have whole: "\<forall>it \<in> set [ex_dozen]. item_price (li_item it) \<in> \<nat> \<and> li_quantity it \<in> \<nat>"
    by (simp add: ex_dozen_def)
  have small: "(\<Sum>it\<leftarrow>[ex_dozen]. item_price (li_item it) * li_quantity it) < 2 ^ 50"
    by (simp add: ex_dozen_def)
  have half_up: "round_half_up (3588 * 8 / 100) = 287"
    unfolding round_half_up_def by (simp add: floor_unique)
  show ?thesis
    using totals_are_exact [OF whole small] half_up
    by (simp add: ex_dozen_def)
qed

subsection \<open>The email pattern\<close>

text \<open>
  \<open>emailRegex_test\<close> is the pattern read as a regular expression: the string is a non-empty
  run of \<open>[^\s@]\<close>, an \<open>@\<close>, a non-empty run, a dot, a non-empty run.
\<close>

lemma email_char_dot: "email_char CHR ''.''"
  by code_simp

lemma email_char_at: "\<not> email_char CHR ''@''"
  by (simp add: email_char_def)

lemma emailRegex_test_iff:
  "emailRegex_test s \<longleftrightarrow>
     (\<exists>A B C. s = A @ ''@'' @ B @ ''.'' @ C \<and> A \<noteq> [] \<and> B \<noteq> [] \<and> C \<noteq> [] \<and>
        list_all email_char A \<and> list_all email_char B \<and> list_all email_char C)"
proof
  assume t: "emailRegex_test s"
  define A where "A = takeWhile email_char s"
  from t obtain d where d: "dropWhile email_char s = CHR ''@'' # d"
    "list_all email_char d" "CHR ''.'' \<in> set (butlast (tl d))" and A: "A \<noteq> []"
    by (auto simp: emailRegex_test_def A_def split: list.splits)
  have s: "s = A @ CHR ''@'' # d"
    using takeWhile_dropWhile_id [of email_char s] d(1) by (simp add: A_def)
  from d(3) obtain xs ys where split: "butlast (tl d) = xs @ CHR ''.'' # ys"
    by (auto dest: split_list)
  then have nonempty: "tl d \<noteq> []" by auto
  then have "d \<noteq> []" by auto
  have "tl d = butlast (tl d) @ [last (tl d)]"
    using nonempty by simp
  then have "tl d = xs @ CHR ''.'' # (ys @ [last (tl d)])"
    using split by simp
  then have dsplit: "d = (hd d # xs) @ CHR ''.'' # (ys @ [last (tl d)])"
    using \<open>d \<noteq> []\<close> by (cases d) simp_all
  have clsA: "list_all email_char A"
    unfolding A_def list_all_iff by (auto dest: set_takeWhileD)
  have "list_all email_char ((hd d # xs) @ CHR ''.'' # (ys @ [last (tl d)]))"
    using d(2) dsplit by simp
  then have clsB: "list_all email_char (hd d # xs)" and clsC: "list_all email_char (ys @ [last (tl d)])"
    by (simp_all only: list_all_append list.pred_inject)
  have "s = A @ ''@'' @ (hd d # xs) @ ''.'' @ (ys @ [last (tl d)])"
    using s dsplit by simp
  then show "\<exists>A B C. s = A @ ''@'' @ B @ ''.'' @ C \<and> A \<noteq> [] \<and> B \<noteq> [] \<and> C \<noteq> [] \<and>
        list_all email_char A \<and> list_all email_char B \<and> list_all email_char C"
    using A clsA clsB clsC by blast
next
  assume "\<exists>A B C. s = A @ ''@'' @ B @ ''.'' @ C \<and> A \<noteq> [] \<and> B \<noteq> [] \<and> C \<noteq> [] \<and>
        list_all email_char A \<and> list_all email_char B \<and> list_all email_char C"
  then obtain A B C where s: "s = A @ CHR ''@'' # B @ CHR ''.'' # C"
    and ne: "A \<noteq> []" "B \<noteq> []" "C \<noteq> []"
    and cls: "list_all email_char A" "list_all email_char B" "list_all email_char C"
    by auto
  have tw: "takeWhile email_char s = A"
    using cls(1) email_char_at by (simp add: s list_all_iff takeWhile_append2)
  have dw: "dropWhile email_char s = CHR ''@'' # B @ CHR ''.'' # C"
    using cls(1) email_char_at by (simp add: s list_all_iff dropWhile_append2)
  obtain b B' where B: "B = b # B'"
    using ne(2) by (cases B) auto
  have "butlast (tl (B @ CHR ''.'' # C)) = B' @ CHR ''.'' # butlast C"
    using ne(3) by (simp add: B butlast_append)
  then have "CHR ''.'' \<in> set (butlast (tl (B @ CHR ''.'' # C)))"
    by simp
  then show "emailRegex_test s"
    using tw dw ne(1) cls email_char_dot by (simp add: emailRegex_test_def)
qed

end
